theory Spec2Isabelle
  imports Main "HOL-Library.AList"
begin

section \<open>Data model\<close>

text \<open>
  The typedefs of \<^verbatim>\<open>src/action/eleventy/data.js\<close> (lines 3 to 45). Two records may have a
  field of the same name, so selectors are written qualified (\<open>Entry.title\<close>,
  \<open>SiteData.title\<close>). A date is a timestamp, an integer.
\<close>

record Entry =
  title :: string
  link :: string
  date :: int
  author :: string

record EntryData = Entry +
  siteTitle :: string
  siteHash :: string
  entryHash :: string
  category :: string

text \<open>\<open>SiteEntryData\<close> has the fields of \<open>EntryData\<close> under another name.\<close>

type_synonym SiteEntryData = EntryData

record SiteData =
  title :: string
  link :: string
  updatedAt :: int
  siteHash :: string

record SiteDataWithEntries = SiteData +
  entries :: "SiteEntryData list"

record CategoryData =
  name :: string
  sites :: "SiteData list"

record RepositoryData =
  repository :: string

text \<open>The parsed form of one feed file under \<^verbatim>\<open>contents/<category>/\<close>.\<close>

record Site =
  title :: string
  link :: string
  updatedAt :: int
  entries :: "Entry list"

text \<open>What line 309 writes to the readability cache: the entry and the minified content.\<close>

record ReadabilityData = EntryData +
  content :: string

section \<open>Values thrown, paths, the environment\<close>

text \<open>
  JavaScript can throw any value. \<open>ErrorObject c\<close> is an instance of \<open>Error\<close> whose
  \<open>code\<close> property is \<open>c\<close>: the system errors of \<open>fs\<close> carry a code such as
  \<open>ENOENT\<close>, the \<open>SyntaxError\<close> of \<open>JSON.parse\<close> and a \<open>TypeError\<close> carry none.
  \<open>Primitive s\<close> is the bare string \<open>s\<close>, thrown as it is.
\<close>

datatype thrown = ErrorObject "string option" | Primitive string

fun errorCode :: "thrown \<Rightarrow> string option" where
  "errorCode (ErrorObject c) = c"
| "errorCode (Primitive s) = None"

text \<open>
  The path constants of lines 54 to 78, and \<open>path.join\<close> of a directory and a name.
\<close>

datatype path =
    FEEDS_CONTENT_PATH
  | EMBEDDED_DATA_PATH
  | DATA_PATH
  | CATEGORY_DATA_PATH
  | SITES_DATA_PATH
  | ENTRIES_DATA_PATH
  | READABILITY_CACHE_PATH
  | WORKSPACE_READABILITY_CACHE_PATH
  | Join path string

datatype fs_call =
    StatSync path
  | MkdirSync path
  | ReaddirSync path
  | ReadFileSync path
  | WriteFileSync path
  | UnlinkSync path

text \<open>
  What the program takes from outside itself:
  \<^item> \<open>sha256\<close>: the hexadecimal SHA-256 digest of \<open>crypto\<close>;
  \<^item> \<open>oserr\<close>: the error code with which the operating system refuses a call of \<open>fs\<close>
    for a reason outside the modelled state (permissions, an I/O error, a file that
    another process removed), \<open>None\<close> when it does not; during one run the same call
    gets the same answer, and so does the fetch of the same entry;
  \<^item> \<open>loadContent\<close>, \<open>close\<close>: the two functions of \<^verbatim>\<open>../puppeteer\<close>; \<open>loadContent\<close>
    throws or returns content or nothing, the \<open>n\<close>-th call of \<open>close\<close> throws or returns;
  \<^item> \<open>minify\<close>: \<open>htmlmin.minify\<close> with the options of lines 303 to 307;
  \<^item> \<open>customDomain\<close>: \<open>core.getInput('customDomain')\<close>;
  \<^item> \<open>GITHUB_REPOSITORY\<close>: the environment variable, \<open>''''\<close> when unset.
\<close>

record environment =
  sha256 :: "string \<Rightarrow> string"
  oserr :: "fs_call \<Rightarrow> string option"
  loadContent :: "EntryData \<Rightarrow> thrown + string option"
  close :: "nat \<Rightarrow> thrown option"
  minify :: "string \<Rightarrow> thrown + string"
  customDomain :: string
  GITHUB_REPOSITORY :: string

section \<open>The file system and the trace\<close>

text \<open>
  A feed file either parses to a \<open>Site\<close> or does not: \<open>Unparsable\<close> stands for text that
  \<open>JSON.parse\<close> rejects (a \<open>SyntaxError\<close>) and for a document without an \<open>entries\<close>
  array (a \<open>TypeError\<close> at \<open>json.entries.map\<close>).
\<close>

datatype feed_file = Unparsable | FeedJson Site

datatype index_doc =
    RepositoryDoc RepositoryData
  | CategoriesDoc "CategoryData list"
  | EntriesDoc "SiteEntryData list"

text \<open>
  What the run does that can be observed, in order. \<open>NextEntry f\<close> marks that the loop of
  line 269 takes the entry file \<open>f\<close>; \<open>LoadContent f json\<close> is the call
  \<open>loadContent(json)\<close> of line 297 while the loop is at \<open>f\<close>; \<open>Close\<close> is a call of
  \<open>close()\<close>; \<open>EntryWritten f data\<close> is the write of line 164 once it has succeeded;
  \<open>SetFailed e\<close> is \<open>core.setFailed(e)\<close>.
\<close>

datatype event =
    ConsoleLog string
  | ConsoleLogSize string nat
  | ConsoleError thrown
  | NextEntry string
  | LoadContent string EntryData
  | Close
  | EntryWritten string EntryData
  | SetFailed thrown

text \<open>
  Every directory the program uses is a list of (file name, content) pairs in the order
  \<open>readdirSync\<close> enumerates it. \<open>prepareEleventyData\<close> (lines 369 to 378) binds each field
  of \<open>paths\<close> to the constant of the same name, so a directory is one field here. The
  directories that \<open>prepareDirectories\<close> makes are present; the feeds content directory
  and the workspace readability cache, which it does not make, may be missing (\<open>None\<close>).
  The readability cache that is written (line 72, under the data path) and the one that
  is read and evicted (line 73, under the workspace) are two directories.
\<close>

record world =
  feedsContent :: "(string \<times> (string \<times> feed_file) list) list option"
  embeddedData :: "(string \<times> index_doc) list"
  dataFiles :: "(string \<times> index_doc) list"
  categoryData :: "(string \<times> SiteEntryData list) list"
  sitesData :: "(string \<times> SiteDataWithEntries) list"
  entriesData :: "(string \<times> EntryData) list"
  readabilityCache :: "(string \<times> ReadabilityData) list"
  workspaceReadabilityCache :: "(string \<times> ReadabilityData) list option"
  trace :: "event list"

definition emit :: "event \<Rightarrow> world \<Rightarrow> world" where
  "emit ev w = w\<lparr>trace := trace w @ [ev]\<rparr>"

definition ENOENT :: thrown where
  "ENOENT = ErrorObject (Some ''ENOENT'')"

text \<open>The error object with which the operating system refuses a call, if it does.\<close>

definition refused :: "environment \<Rightarrow> fs_call \<Rightarrow> thrown option" where
  "refused env c = map_option (\<lambda>code. ErrorObject (Some code)) (oserr env c)"

section \<open>Library functions of JavaScript\<close>

text \<open>
  \<open>String.prototype.substring(a, b)\<close> moves each index into \<open>0..length\<close> and swaps them
  when \<open>a > b\<close>; \<open>String.prototype.slice(a, b)\<close> counts a negative index from the end.
\<close>

definition substring :: "string \<Rightarrow> int \<Rightarrow> int \<Rightarrow> string" where
  "substring s a b =
     (let n = int (length s);
          a' = min (max a 0) n;
          b' = min (max b 0) n;
          lo = min a' b';
          hi = max a' b'
      in take (nat (hi - lo)) (drop (nat lo) s))"

definition slice :: "string \<Rightarrow> int \<Rightarrow> int \<Rightarrow> string" where
  "slice s a b =
     (let n = int (length s);
          from = (if a < 0 then max (n + a) 0 else min a n);
          to = (if b < 0 then max (n + b) 0 else min b n)
      in take (nat (to - from)) (drop (nat from) s))"

text \<open>\<open>String.prototype.split\<close> with a one-character separator.\<close>

fun split :: "char \<Rightarrow> string \<Rightarrow> string list" where
  "split c [] = [[]]"
| "split c (x # xs) =
     (if x = c then [] # split c xs
      else (case split c xs of [] \<Rightarrow> [[x]] | p # ps \<Rightarrow> (x # p) # ps))"

text \<open>
  \<open>Array.prototype.sort\<close> with a comparator, here \<open>sortBy\<close>. ECMAScript 2019 requires
  the sort to be stable; the model inserts each element, from the last to the first,
  before the first element that the comparator does not put before it.
\<close>

fun insertBy :: "('a \<Rightarrow> 'a \<Rightarrow> int) \<Rightarrow> 'a \<Rightarrow> 'a list \<Rightarrow> 'a list" where
  "insertBy cmp x [] = [x]"
| "insertBy cmp x (y # ys) = (if cmp x y \<le> 0 then x # y # ys else y # insertBy cmp x ys)"

definition sortBy :: "('a \<Rightarrow> 'a \<Rightarrow> int) \<Rightarrow> 'a list \<Rightarrow> 'a list" where
  "sortBy cmp xs = foldr (insertBy cmp) xs []"

text \<open>The comparator \<^verbatim>\<open>(a, b) => b.date - a.date\<close> of lines 220, 253 and 352.\<close>

definition byDateDesc :: "SiteEntryData \<Rightarrow> SiteEntryData \<Rightarrow> int" where
  "byDateDesc a b = date b - date a"

text \<open>
  \<open>new Set(xs)\<close> keeps the first occurrence of each value, in order; \<open>delete\<close> removes a
  value.
\<close>

fun newSet :: "'a list \<Rightarrow> 'a list" where
  "newSet [] = []"
| "newSet (x # xs) = x # removeAll x (newSet xs)"

section \<open>The program\<close>

text \<open>
  A parameter or local constant whose name is also a field of a record is written with a
  prime (\<open>category'\<close> for \<open>category\<close>).
\<close>

subsection \<open>prepareDirectories (lines 85 to 100)\<close>

fun firstRefused :: "environment \<Rightarrow> fs_call list \<Rightarrow> thrown option" where
  "firstRefused env [] = None"
| "firstRefused env (c # cs) =
     (case refused env c of Some e \<Rightarrow> Some e | None \<Rightarrow> firstRefused env cs)"

definition prepareDirectories :: "environment \<Rightarrow> world \<Rightarrow> (thrown + unit) \<times> world" where
  "prepareDirectories env w =
     (case refused env (StatSync FEEDS_CONTENT_PATH) of
        Some e \<Rightarrow> (Inl e, w)
      | None \<Rightarrow>
          if feedsContent w = None then (Inl ENOENT, w)
          else (case firstRefused env
                  [MkdirSync EMBEDDED_DATA_PATH, MkdirSync CATEGORY_DATA_PATH,
                   MkdirSync SITES_DATA_PATH, MkdirSync ENTRIES_DATA_PATH,
                   MkdirSync READABILITY_CACHE_PATH] of
                  Some e \<Rightarrow> (Inl e, w)
                | None \<Rightarrow> (Inr (), w)))"

subsection \<open>createHash (lines 108 to 112)\<close>

definition createHash :: "environment \<Rightarrow> string \<Rightarrow> string" where
  "createHash env input = sha256 env input"

subsection \<open>createRepositoryData (lines 124 to 139)\<close>

definition createRepositoryData ::
  "environment \<Rightarrow> string \<Rightarrow> string \<Rightarrow> world \<Rightarrow> (thrown + RepositoryData) \<times> world" where
  "createRepositoryData env githubRootName customDomainName w =
     (let isCustomDomainEnabled = (customDomainName \<noteq> []);
          parts = split CHR ''/'' githubRootName;
          data = \<lparr>repository =
                    (if \<not> isCustomDomainEnabled \<and> length parts > 1
                     then ''/'' @ parts ! 1 else [])\<rparr>
      in case refused env (WriteFileSync (Join EMBEDDED_DATA_PATH ''github.json'')) of
           Some e \<Rightarrow> (Inl e, w)
         | None \<Rightarrow>
             (Inr data,
              w\<lparr>embeddedData :=
                   AList.update ''github.json'' (RepositoryDoc data) (embeddedData w)\<rparr>))"

subsection \<open>createEntryData (lines 151 to 169)\<close>

definition createEntryData ::
  "environment \<Rightarrow> string \<Rightarrow> string \<Rightarrow> string \<Rightarrow> Entry \<Rightarrow> world
     \<Rightarrow> (thrown + EntryData) \<times> world" where
  "createEntryData env category' siteTitle' siteHash' entry w =
     (let entryHash' = createHash env (Entry.title entry @ '','' @ Entry.link entry);
          data = \<lparr>Entry.title = Entry.title entry, Entry.link = Entry.link entry,
                  Entry.date = date entry, Entry.author = author entry,
                  EntryData.siteTitle = siteTitle', EntryData.siteHash = siteHash',
                  EntryData.entryHash = entryHash', EntryData.category = category'\<rparr>;
          file = entryHash' @ ''.json''
      in case refused env (WriteFileSync (Join ENTRIES_DATA_PATH file)) of
           Some e \<Rightarrow> (Inl e, w)
         | None \<Rightarrow>
             (Inr data,
              emit (EntryWritten file data)
                (w\<lparr>entriesData := AList.update file data (entriesData w)\<rparr>)))"

subsection \<open>createSitesData (lines 179 to 229)\<close>

text \<open>The callback of lines 201 to 219, applied to the entries in order.\<close>

fun mapEntries ::
  "environment \<Rightarrow> string \<Rightarrow> string \<Rightarrow> string \<Rightarrow> Entry list \<Rightarrow> world
     \<Rightarrow> (thrown + SiteEntryData list) \<times> world" where
  "mapEntries env category' siteTitle' siteHash' [] w = (Inr [], w)"
| "mapEntries env category' siteTitle' siteHash' (entry # rest) w =
     (case createEntryData env category' siteTitle' siteHash' entry w of
        (Inl e, w1) \<Rightarrow> (Inl e, w1)
      | (Inr entryData, w1) \<Rightarrow>
          (case mapEntries env category' siteTitle' siteHash' rest w1 of
             (Inl e, w2) \<Rightarrow> (Inl e, w2)
           | (Inr summaries, w2) \<Rightarrow>
               (Inr (\<lparr>Entry.title = Entry.title entryData, Entry.link = Entry.link entryData,
                      Entry.date = date entryData, Entry.author = author entryData,
                      EntryData.siteTitle = siteTitle', EntryData.siteHash = siteHash',
                      EntryData.entryHash = entryHash entryData,
                      EntryData.category = category'\<rparr> # summaries), w2)))"

text \<open>Lines 184 to 190: read the feed file of a site and parse it.\<close>

definition readSite :: "environment \<Rightarrow> string \<Rightarrow> string \<Rightarrow> world \<Rightarrow> thrown + Site" where
  "readSite env category' site w =
     (case refused env (ReadFileSync (Join (Join FEEDS_CONTENT_PATH category') site)) of
        Some e \<Rightarrow> Inl e
      | None \<Rightarrow>
          (case feedsContent w of
             None \<Rightarrow> Inl ENOENT
           | Some categories \<Rightarrow>
               (case map_of categories category' of
                  None \<Rightarrow> Inl ENOENT
                | Some files \<Rightarrow>
                    (case map_of files site of
                       None \<Rightarrow> Inl ENOENT
                     | Some Unparsable \<Rightarrow> Inl (ErrorObject None)
                     | Some (FeedJson json) \<Rightarrow> Inr json))))"

fun createSitesData ::
  "environment \<Rightarrow> string \<Rightarrow> string list \<Rightarrow> world
     \<Rightarrow> (thrown + SiteDataWithEntries list) \<times> world" where
  "createSitesData env category' [] w = (Inr [], w)"
| "createSitesData env category' (site # rest) w =
     (case readSite env category' site w of
        Inl e \<Rightarrow> (Inl e, w)
      | Inr json \<Rightarrow>
          (let siteHash' = createHash env (substring site 0 (int (length site) - 5))
           in case mapEntries env category' (Site.title json) siteHash' (Site.entries json) w of
                (Inl e, w1) \<Rightarrow> (Inl e, w1)
              | (Inr summaries, w1) \<Rightarrow>
                  (let data = \<lparr>SiteData.title = Site.title json, SiteData.link = Site.link json,
                               SiteData.updatedAt = Site.updatedAt json,
                               SiteData.siteHash = siteHash',
                               SiteDataWithEntries.entries = sortBy byDateDesc summaries\<rparr>
                   in case refused env
                             (WriteFileSync (Join SITES_DATA_PATH (siteHash' @ ''.json''))) of
                        Some e \<Rightarrow> (Inl e, w1)
                      | None \<Rightarrow>
                          (case createSitesData env category' rest
                                  (w1\<lparr>sitesData :=
                                        AList.update (siteHash' @ ''.json'') data (sitesData w1)\<rparr>) of
                             (Inl e, w2) \<Rightarrow> (Inl e, w2)
                           | (Inr result, w2) \<Rightarrow> (Inr (data # result), w2)))))"

subsection \<open>createAllEntriesData (lines 231 to 256)\<close>

definition readEntry :: "environment \<Rightarrow> string \<Rightarrow> world \<Rightarrow> thrown + EntryData" where
  "readEntry env entryHashFile w =
     (case refused env (ReadFileSync (Join ENTRIES_DATA_PATH entryHashFile)) of
        Some e \<Rightarrow> Inl e
      | None \<Rightarrow>
          (case map_of (entriesData w) entryHashFile of
             None \<Rightarrow> Inl ENOENT
           | Some json \<Rightarrow> Inr json))"

text \<open>The callback of lines 234 to 252, applied to the file names in order.\<close>

fun readEntries :: "environment \<Rightarrow> string list \<Rightarrow> world \<Rightarrow> thrown + SiteEntryData list" where
  "readEntries env [] w = Inr []"
| "readEntries env (entryHashFile # rest) w =
     (case readEntry env entryHashFile w of
        Inl e \<Rightarrow> Inl e
      | Inr json \<Rightarrow>
          (case readEntries env rest w of
             Inl e \<Rightarrow> Inl e
           | Inr entriesData' \<Rightarrow>
               Inr (\<lparr>Entry.title = Entry.title json, Entry.link = Entry.link json,
                     Entry.date = date json, Entry.author = author json,
                     EntryData.siteTitle = siteTitle json,
                     EntryData.siteHash = EntryData.siteHash json,
                     EntryData.entryHash = entryHash json,
                     EntryData.category = category json\<rparr> # entriesData')))"

definition createAllEntriesData :: "environment \<Rightarrow> world \<Rightarrow> (thrown + unit) \<times> world" where
  "createAllEntriesData env w =
     (case refused env (ReaddirSync ENTRIES_DATA_PATH) of
        Some e \<Rightarrow> (Inl e, w)
      | None \<Rightarrow>
          (case readEntries env (map fst (entriesData w)) w of
             Inl e \<Rightarrow> (Inl e, w)
           | Inr entriesData' \<Rightarrow>
               (case refused env (WriteFileSync (Join DATA_PATH ''all.json'')) of
                  Some e \<Rightarrow> (Inl e, w)
                | None \<Rightarrow>
                    (Inr (),
                     w\<lparr>dataFiles :=
                          AList.update ''all.json'' (EntriesDoc (sortBy byDateDesc entriesData'))
                            (dataFiles w)\<rparr>))))"

subsection \<open>loadEntryWithPuppeteer (lines 258 to 321)\<close>

text \<open>Lines 266 to 268: unlink each old cache file.\<close>

fun unlinkAll :: "environment \<Rightarrow> string list \<Rightarrow> world \<Rightarrow> (thrown + unit) \<times> world" where
  "unlinkAll env [] w = (Inr (), w)"
| "unlinkAll env (oldEntry # rest) w =
     (case refused env (UnlinkSync (Join WORKSPACE_READABILITY_CACHE_PATH oldEntry)) of
        Some e \<Rightarrow> (Inl e, w)
      | None \<Rightarrow>
          (case workspaceReadabilityCache w of
             None \<Rightarrow> (Inl ENOENT, w)
           | Some files \<Rightarrow>
               if oldEntry \<notin> fst ` set files then (Inl ENOENT, w)
               else unlinkAll env rest
                      (w\<lparr>workspaceReadabilityCache := Some (AList.delete oldEntry files)\<rparr>)))"

text \<open>Lines 259 to 268: the eviction of the cache files that no entry file names.\<close>

definition evictOldCaches ::
  "environment \<Rightarrow> world \<Rightarrow> (thrown + string list) \<times> world" where
  "evictOldCaches env w =
     (case refused env (ReaddirSync ENTRIES_DATA_PATH) of
        Some e \<Rightarrow> (Inl e, w)
      | None \<Rightarrow>
          (let entries' = map fst (entriesData w)
           in case refused env (ReaddirSync WORKSPACE_READABILITY_CACHE_PATH) of
                Some e \<Rightarrow> (Inl e, w)
              | None \<Rightarrow>
                  (case workspaceReadabilityCache w of
                     None \<Rightarrow> (Inl ENOENT, w)
                   | Some files \<Rightarrow>
                       (let cacheEntries = map fst files;
                            previousSet = fold removeAll entries' (newSet cacheEntries);
                            w1 = emit (ConsoleLogSize ''Delete old caches'' (length previousSet)) w
                        in case unlinkAll env previousSet w1 of
                             (Inl e, w2) \<Rightarrow> (Inl e, w2)
                           | (Inr u, w2) \<Rightarrow> (Inr entries', w2)))))"

text \<open>\<open>fs.statSync\<close> of a file of the workspace readability cache (line 279).\<close>

definition statSync :: "environment \<Rightarrow> string \<Rightarrow> world \<Rightarrow> thrown + unit" where
  "statSync env file w =
     (case refused env (StatSync (Join WORKSPACE_READABILITY_CACHE_PATH file)) of
        Some e \<Rightarrow> Inl e
      | None \<Rightarrow>
          (case workspaceReadabilityCache w of
             None \<Rightarrow> Inl ENOENT
           | Some files \<Rightarrow> if file \<in> fst ` set files then Inr () else Inl ENOENT))"

text \<open>A call of \<open>close()\<close>: it is the \<open>n\<close>-th when the trace holds \<open>n\<close> calls already.\<close>

definition callClose :: "environment \<Rightarrow> world \<Rightarrow> (thrown + unit) \<times> world" where
  "callClose env w =
     (case close env (length (filter (\<lambda>ev. ev = Close) (trace w))) of
        Some e \<Rightarrow> (Inl e, emit Close w)
      | None \<Rightarrow> (Inr (), emit Close w))"

text \<open>
  The \<open>try\<close> block of lines 297 to 314. Content is missing when \<open>!content\<close> holds: the
  call returned nothing, or the empty string.
\<close>

definition tryLoad ::
  "environment \<Rightarrow> string \<Rightarrow> string \<Rightarrow> EntryData \<Rightarrow> world \<Rightarrow> (thrown + unit) \<times> world" where
  "tryLoad env entryHashFile entryHash' json w =
     (let w1 = emit (LoadContent entryHashFile json) w;
          skip = callClose env
                   (emit (ConsoleLog (entryHash' @ '' - Skip '' @ Entry.link json)) w1)
      in case loadContent env json of
           Inl e \<Rightarrow> (Inl e, w1)
         | Inr None \<Rightarrow> skip
         | Inr (Some content') \<Rightarrow>
             if content' = [] then skip
             else (case minify env content' of
                     Inl e \<Rightarrow> (Inl e, w1)
                   | Inr minifyContent \<Rightarrow>
                       (case refused env
                               (WriteFileSync
                                  (Join READABILITY_CACHE_PATH (entryHash' @ ''.json''))) of
                          Some e \<Rightarrow> (Inl e, w1)
                        | None \<Rightarrow>
                            callClose env
                              (w1\<lparr>readabilityCache :=
                                    AList.update (entryHash' @ ''.json'')
                                      (EntryData.extend json \<lparr>content = minifyContent\<rparr>)
                                      (readabilityCache w1)\<rparr>))))"

text \<open>The body of the loop of line 269, for one entry file (lines 270 to 319).\<close>

definition loadEntry :: "environment \<Rightarrow> string \<Rightarrow> world \<Rightarrow> (thrown + unit) \<times> world" where
  "loadEntry env entryHashFile w0 =
     (let w = emit (NextEntry entryHashFile) w0;
          entryHash' = slice entryHashFile 0 (int (length entryHashFile) - 5)
      in case statSync env (entryHash' @ ''.json'') w of
           Inr u \<Rightarrow>
             (Inr (), emit (ConsoleLog (entryHash' @ '' - Readability loaded, skip'')) w)
         | Inl error \<Rightarrow>
             if errorCode error \<noteq> Some ''ENOENT'' then (Inr (), emit (ConsoleError error) w)
             else (case readEntry env entryHashFile w of
                     Inl e \<Rightarrow> (Inl e, w)
                   | Inr json \<Rightarrow>
                       (case tryLoad env entryHashFile entryHash' json
                               (emit (ConsoleLog (entryHash' @ '' - Load '' @ Entry.link json)) w) of
                          (Inr u, w1) \<Rightarrow> (Inr (), w1)
                        | (Inl error', w1) \<Rightarrow>
                            callClose env
                              (emit (ConsoleLog
                                       (entryHash' @ '' - Fail to load '' @ Entry.link json)) w1))))"

fun loadEntries :: "environment \<Rightarrow> string list \<Rightarrow> world \<Rightarrow> (thrown + unit) \<times> world" where
  "loadEntries env [] w = (Inr (), w)"
| "loadEntries env (entryHashFile # rest) w =
     (case loadEntry env entryHashFile w of
        (Inl e, w1) \<Rightarrow> (Inl e, w1)
      | (Inr u, w1) \<Rightarrow> loadEntries env rest w1)"

definition loadEntryWithPuppeteer :: "environment \<Rightarrow> world \<Rightarrow> (thrown + unit) \<times> world" where
  "loadEntryWithPuppeteer env w =
     (case evictOldCaches env w of
        (Inl e, w1) \<Rightarrow> (Inl e, w1)
      | (Inr entries', w1) \<Rightarrow> loadEntries env entries' w1)"

subsection \<open>createCategoryData (lines 327 to 361)\<close>

text \<open>The loop of lines 333 to 357; it returns \<open>categoriesData\<close>.\<close>

fun createCategories ::
  "environment \<Rightarrow> string list \<Rightarrow> world \<Rightarrow> (thrown + CategoryData list) \<times> world" where
  "createCategories env [] w = (Inr [], w)"
| "createCategories env (category' # rest) w =
     (case refused env (ReaddirSync (Join FEEDS_CONTENT_PATH category')) of
        Some e \<Rightarrow> (Inl e, w)
      | None \<Rightarrow>
          (case Option.bind (feedsContent w) (\<lambda>categories. map_of categories category') of
             None \<Rightarrow> (Inl ENOENT, w)
           | Some files \<Rightarrow>
               (case createSitesData env category' (map fst files) w of
                  (Inl e, w1) \<Rightarrow> (Inl e, w1)
                | (Inr sitesData', w1) \<Rightarrow>
                    (let categoryData' =
                           \<lparr>name = category',
                            sites = map (\<lambda>data. \<lparr>SiteData.title = SiteData.title data,
                                                 SiteData.link = SiteData.link data,
                                                 SiteData.updatedAt = SiteData.updatedAt data,
                                                 SiteData.siteHash = SiteData.siteHash data\<rparr>)
                                      sitesData'\<rparr>;
                         categoryEntries =
                           foldl (\<lambda>entries' site. entries' @ SiteDataWithEntries.entries site)
                             [] sitesData'
                     in case refused env
                               (WriteFileSync (Join CATEGORY_DATA_PATH (category' @ ''.json''))) of
                          Some e \<Rightarrow> (Inl e, w1)
                        | None \<Rightarrow>
                            (case createCategories env rest
                                    (w1\<lparr>categoryData :=
                                          AList.update (category' @ ''.json'')
                                            (sortBy byDateDesc categoryEntries)
                                            (categoryData w1)\<rparr>) of
                               (Inl e, w2) \<Rightarrow> (Inl e, w2)
                             | (Inr categoriesData, w2) \<Rightarrow>
                                 (Inr (categoryData' # categoriesData), w2))))))"

definition createCategoryData :: "environment \<Rightarrow> world \<Rightarrow> (thrown + unit) \<times> world" where
  "createCategoryData env w =
     (case refused env (ReaddirSync FEEDS_CONTENT_PATH) of
        Some e \<Rightarrow> (Inl e, w)
      | None \<Rightarrow>
          (case feedsContent w of
             None \<Rightarrow> (Inl ENOENT, w)
           | Some categories \<Rightarrow>
               (case createCategories env (map fst categories) w of
                  (Inl e, w1) \<Rightarrow> (Inl e, w1)
                | (Inr categoriesData, w1) \<Rightarrow>
                    (case refused env
                            (WriteFileSync (Join EMBEDDED_DATA_PATH ''categories.json'')) of
                       Some e \<Rightarrow> (Inl e, w1)
                     | None \<Rightarrow>
                         (let w2 = w1\<lparr>embeddedData :=
                                        AList.update ''categories.json''
                                          (CategoriesDoc categoriesData) (embeddedData w1)\<rparr>
                          in case refused env
                                    (WriteFileSync (Join DATA_PATH ''categories.json'')) of
                               Some e \<Rightarrow> (Inl e, w2)
                             | None \<Rightarrow>
                                 (Inr (),
                                  w2\<lparr>dataFiles :=
                                       AList.update ''categories.json''
                                         (CategoriesDoc categoriesData) (dataFiles w2)\<rparr>))))))"

subsection \<open>prepareEleventyData (lines 364 to 390)\<close>

text \<open>The \<open>try\<close> block, lines 366 to 383.\<close>

definition runPass :: "environment \<Rightarrow> world \<Rightarrow> (thrown + unit) \<times> world" where
  "runPass env w0 =
     (let w = emit (ConsoleLog ''Preparing eleventy data'') w0;
          customDomainName = customDomain env;
          githubRootName = GITHUB_REPOSITORY env
      in case prepareDirectories env w of
           (Inl e, w1) \<Rightarrow> (Inl e, w1)
         | (Inr u, w1) \<Rightarrow>
             (case createRepositoryData env githubRootName customDomainName w1 of
                (Inl e, w2) \<Rightarrow> (Inl e, w2)
              | (Inr data, w2) \<Rightarrow>
                  (case createCategoryData env w2 of
                     (Inl e, w3) \<Rightarrow> (Inl e, w3)
                   | (Inr u, w3) \<Rightarrow>
                       (case createAllEntriesData env w3 of
                          (Inl e, w4) \<Rightarrow> (Inl e, w4)
                        | (Inr u, w4) \<Rightarrow> loadEntryWithPuppeteer env w4))))"

text \<open>
  The \<open>catch\<close> of lines 384 to 389 compares the thrown value itself with the string
  \<open>'ENOENT'\<close>.
\<close>

definition prepareEleventyData :: "environment \<Rightarrow> world \<Rightarrow> (thrown + unit) \<times> world" where
  "prepareEleventyData env w =
     (case runPass env w of
        (Inr u, w1) \<Rightarrow> (Inr (), w1)
      | (Inl error, w1) \<Rightarrow>
          if error \<noteq> Primitive ''ENOENT'' then (Inl error, emit (SetFailed error) w1)
          else (Inr (), w1))"

section \<open>Notions the properties are stated with\<close>

text \<open>The entry identifier that line 270 takes from the name of an entry file.\<close>

definition entryHashOf :: "string \<Rightarrow> string" where
  "entryHashOf entryHashFile = slice entryHashFile 0 (int (length entryHashFile) - 5)"

text \<open>
  A trace is released when every call of \<open>loadContent\<close> is followed by a call of \<open>close\<close>
  before the next call of \<open>loadContent\<close>, before the loop takes the next entry, and
  before the trace ends. \<open>pending\<close> says that a call of \<open>loadContent\<close> waits for its
  \<open>close\<close>.
\<close>

fun released :: "bool \<Rightarrow> event list \<Rightarrow> bool" where
  "released pending [] = (\<not> pending)"
| "released pending (LoadContent f json # evs) = (\<not> pending \<and> released True evs)"
| "released pending (Close # evs) = released False evs"
| "released pending (NextEntry f # evs) = (\<not> pending \<and> released False evs)"
| "released pending (ev # evs) = released pending evs"







text \<open>
  A list keeps the ties of another when it is in descending order of date and its entries
  of each date are those of the other, in the same order.
\<close>

definition keepsTies :: "'a Entry_scheme list \<Rightarrow> 'a Entry_scheme list \<Rightarrow> bool" where
  "keepsTies before after =
     (sorted_wrt (\<lambda>a b. date b \<le> date a) after
      \<and> (\<forall>d. filter (\<lambda>e. date e = d) after = filter (\<lambda>e. date e = d) before))"

section \<open>Example inputs\<close>

text \<open>
  An environment in which nothing fails; a prefix stands for the digest. The content
  fetched for every entry is a paragraph.
\<close>

definition quiet :: environment where
  "quiet = \<lparr>sha256 = (\<lambda>input. ''#'' @ input), oserr = (\<lambda>c. None),
             loadContent = (\<lambda>json. Inr (Some ''<p>text</p>'')), close = (\<lambda>n. None),
             minify = (\<lambda>html. Inr html), customDomain = [],
             GITHUB_REPOSITORY = ''llun/feeds''\<rparr>"

text \<open>The same, but every fetch throws.\<close>

definition offline :: environment where
  "offline = quiet\<lparr>loadContent := (\<lambda>json. Inl (ErrorObject None))\<rparr>"

text \<open>The same as \<open>quiet\<close>, but the cache file \<open>A.json\<close> is gone when it is unlinked.\<close>

definition vanished :: environment where
  "vanished =
     quiet\<lparr>oserr := (\<lambda>c. if c = UnlinkSync (Join WORKSPACE_READABILITY_CACHE_PATH ''A.json'')
                          then Some ''ENOENT'' else None)\<rparr>"

text \<open>The same as \<open>quiet\<close>, but the global index cannot be written.\<close>

definition readonly :: environment where
  "readonly =
     quiet\<lparr>oserr := (\<lambda>c. if c = WriteFileSync (Join DATA_PATH ''all.json'')
                          then Some ''EACCES'' else None)\<rparr>"

definition E1 :: Entry where
  "E1 = \<lparr>Entry.title = ''E1'', Entry.link = ''https://a/1'', Entry.date = 100,
          Entry.author = ''x''\<rparr>"

text \<open>The entry \<open>E1\<close> with another author and date.\<close>

definition E1later :: Entry where
  "E1later = \<lparr>Entry.title = ''E1'', Entry.link = ''https://a/1'', Entry.date = 200,
               Entry.author = ''y''\<rparr>"

definition feedA :: Site where
  "feedA = \<lparr>Site.title = ''A'', Site.link = ''https://a'', Site.updatedAt = 1,
             Site.entries = [E1]\<rparr>"

text \<open>The feed \<open>feedA\<close> under another title.\<close>

definition feedRenamed :: Site where
  "feedRenamed = \<lparr>Site.title = ''A renamed'', Site.link = ''https://a'', Site.updatedAt = 2,
                   Site.entries = [E1later]\<rparr>"

definition emptyWorld :: world where
  "emptyWorld = \<lparr>feedsContent = Some [], embeddedData = [], dataFiles = [],
                  categoryData = [], sitesData = [], entriesData = [],
                  readabilityCache = [], workspaceReadabilityCache = Some [], trace = []\<rparr>"

text \<open>One category \<open>tech\<close> with one site file \<open>a.json\<close>.\<close>

definition techWorld :: world where
  "techWorld = emptyWorld\<lparr>feedsContent := Some [(''tech'', [(''a.json'', FeedJson feedA)])]\<rparr>"

definition renamedWorld :: world where
  "renamedWorld =
     emptyWorld\<lparr>feedsContent := Some [(''tech'', [(''a.json'', FeedJson feedRenamed)])]\<rparr>"

text \<open>The same entry under two sites of two categories.\<close>

definition twiceWorld :: world where
  "twiceWorld =
     emptyWorld\<lparr>feedsContent :=
                   Some [(''tech'', [(''a.json'', FeedJson feedA)]),
                         (''news'', [(''b.json'', FeedJson feedRenamed)])]\<rparr>"

text \<open>A world without the feeds content directory, and one whose feed file does not parse.\<close>

definition missingWorld :: world where
  "missingWorld = emptyWorld\<lparr>feedsContent := None\<rparr>"

definition brokenWorld :: world where
  "brokenWorld = emptyWorld\<lparr>feedsContent := Some [(''tech'', [(''a.json'', Unparsable)])]\<rparr>"

definition entryNamed :: "string \<Rightarrow> EntryData" where
  "entryNamed n = \<lparr>Entry.title = n, Entry.link = ''https://a/'' @ n, Entry.date = 100,
                    Entry.author = ''x'', EntryData.siteTitle = ''A'',
                    EntryData.siteHash = ''#a'', EntryData.entryHash = n,
                    EntryData.category = ''tech''\<rparr>"

definition cacheNamed :: "string \<Rightarrow> ReadabilityData" where
  "cacheNamed n = EntryData.extend (entryNamed n) \<lparr>content = ''<p>'' @ n @ ''</p>''\<rparr>"

text \<open>A prior cache of \<open>A\<close>, \<open>B\<close> and \<open>C\<close>, with the current entries \<open>B\<close>, \<open>C\<close> and \<open>D\<close>.\<close>

definition cacheWorld :: world where
  "cacheWorld =
     emptyWorld\<lparr>entriesData :=
                   [(''B.json'', entryNamed ''B''), (''C.json'', entryNamed ''C''),
                    (''D.json'', entryNamed ''D'')],
                 workspaceReadabilityCache :=
                   Some [(''A.json'', cacheNamed ''A''), (''B.json'', cacheNamed ''B''),
                         (''C.json'', cacheNamed ''C'')]\<rparr>"

text \<open>The same as \<open>offline\<close>, but every call of \<open>close\<close> throws too.\<close>

definition stuck :: environment where
  "stuck = offline\<lparr>close := (\<lambda>n. Some (ErrorObject (Some ''ECLOSED'')))\<rparr>"

text \<open>Two entries and no cache.\<close>

definition freshWorld :: world where
  "freshWorld =
     emptyWorld\<lparr>entriesData := [(''D.json'', entryNamed ''D''), (''E.json'', entryNamed ''E'')]\<rparr>"

definition entryAt :: "string \<Rightarrow> int \<Rightarrow> Entry" where
  "entryAt n d = \<lparr>Entry.title = n, Entry.link = ''https://a/'' @ n, Entry.date = d,
                   Entry.author = ''x''\<rparr>"

text \<open>
  One category with two sites; three of the four entries have the same date, two of them
  in one site.
\<close>

definition tiesWorld :: world where
  "tiesWorld =
     emptyWorld\<lparr>feedsContent :=
       Some [(''tech'',
              [(''a.json'',
                FeedJson \<lparr>Site.title = ''A'', Site.link = ''https://a'', Site.updatedAt = 1,
                          Site.entries = [entryAt ''first'' 100, entryAt ''newer'' 200,
                                          entryAt ''last'' 100]\<rparr>),
               (''b.json'',
                FeedJson \<lparr>Site.title = ''B'', Site.link = ''https://b'', Site.updatedAt = 1,
                          Site.entries = [entryAt ''other'' 100]\<rparr>)])]\<rparr>"

section \<open>Proofs\<close>

text \<open>The equations that evaluate the program on the example inputs.\<close>

lemmas program_defs =
  prepareEleventyData_def runPass_def prepareDirectories_def createRepositoryData_def
  createCategoryData_def createAllEntriesData_def loadEntryWithPuppeteer_def
  evictOldCaches_def loadEntry_def tryLoad_def callClose_def statSync_def readEntry_def
  readSite_def createEntryData_def createHash_def refused_def emit_def ENOENT_def
  substring_def slice_def sortBy_def byDateDesc_def entryHashOf_def Let_def

lemmas example_defs =
  quiet_def offline_def vanished_def readonly_def E1_def E1later_def feedA_def
  feedRenamed_def emptyWorld_def techWorld_def renamedWorld_def twiceWorld_def
  missingWorld_def brokenWorld_def entryNamed_def cacheNamed_def cacheWorld_def
  stuck_def freshWorld_def entryAt_def tiesWorld_def

subsection \<open>Library functions\<close>

lemma substring_json: "substring (b @ ''.json'') 0 (int (length (b @ ''.json'')) - 5) = b"
  by (simp add: substring_def Let_def)

lemma slice_json: "slice (b @ ''.json'') 0 (int (length (b @ ''.json'')) - 5) = b"
  by (simp add: slice_def Let_def)

lemma filter_insertBy:
  "filter (\<lambda>e. date e = d) (insertBy byDateDesc x ys) =
     (if date x = d then x # filter (\<lambda>e. date e = d) ys else filter (\<lambda>e. date e = d) ys)"
  by (induction ys) (auto simp: byDateDesc_def)

lemma set_insertBy: "set (insertBy cmp x ys) = insert x (set ys)"
  by (induction ys) auto

lemma sorted_insertBy:
  "sorted_wrt (\<lambda>a b. date b \<le> date a) ys \<Longrightarrow>
   sorted_wrt (\<lambda>a b. date b \<le> date a) (insertBy byDateDesc x ys)"
  by (induction ys) (auto simp: byDateDesc_def set_insertBy)




lemma set_fold_removeAll: "set (fold removeAll ys xs) = set xs - set ys"
  by (induction ys arbitrary: xs) auto

lemma set_newSet: "set (newSet xs) = set xs"
  by (induction xs) auto

lemma distinct_newSet: "distinct (newSet xs)"
  by (induction xs) (auto simp: set_newSet distinct_removeAll)

lemma distinct_fold_removeAll: "distinct xs \<Longrightarrow> distinct (fold removeAll ys xs)"
  by (induction ys arbitrary: xs) (auto simp: distinct_removeAll)




lemma EntryData_rebuild:
  "\<lparr>Entry.title = Entry.title json, Entry.link = Entry.link json,
     Entry.date = date json, Entry.author = author json,
     EntryData.siteTitle = siteTitle json, EntryData.siteHash = EntryData.siteHash json,
     EntryData.entryHash = entryHash json, EntryData.category = category json\<rparr> = (json :: EntryData)"
  by (cases json) simp

subsection \<open>Entry identifiers\<close>

text \<open>
  Claim C1. The identifier of the record that \<open>createEntryData\<close> returns is the hash of
  the title, a comma and the link; two entries of the same title and link get the same
  identifier, whatever their author, date, site and category; and the record lies in the
  entries store in the file named by the identifier.
\<close>

theorem createEntryData_identifier:
  assumes "createEntryData env c1 t1 s1 e1 w1 = (Inr d1, w1')"
      and "createEntryData env c2 t2 s2 e2 w2 = (Inr d2, w2')"
      and "Entry.title e1 = Entry.title e2" and "Entry.link e1 = Entry.link e2"
  shows "entryHash d1 = createHash env (Entry.title e1 @ '','' @ Entry.link e1)
       \<and> entryHash d2 = entryHash d1
       \<and> map_of (entriesData w1') (entryHash d1 @ ''.json'') = Some d1
       \<and> map_of (entriesData w2') (entryHash d2 @ ''.json'') = Some d2"
  using assms
  by (auto simp: createEntryData_def Let_def emit_def AList.update_conv' split: option.splits)

theorem createEntryData_identifier_witness:
  "createEntryData quiet ''tech'' ''A'' ''#a'' E1 emptyWorld
     = (Inr (projr (fst (createEntryData quiet ''tech'' ''A'' ''#a'' E1 emptyWorld))),
        snd (createEntryData quiet ''tech'' ''A'' ''#a'' E1 emptyWorld))
   \<and> createEntryData quiet ''news'' ''B'' ''#b'' E1later emptyWorld
     = (Inr (projr (fst (createEntryData quiet ''news'' ''B'' ''#b'' E1later emptyWorld))),
        snd (createEntryData quiet ''news'' ''B'' ''#b'' E1later emptyWorld))
   \<and> Entry.title E1 = Entry.title E1later \<and> Entry.link E1 = Entry.link E1later
   \<and> author E1 \<noteq> author E1later \<and> date E1 \<noteq> date E1later
   \<and> entryHash (projr (fst (createEntryData quiet ''tech'' ''A'' ''#a'' E1 emptyWorld)))
       = ''#E1,https://a/1''
   \<and> entryHash (projr (fst (createEntryData quiet ''news'' ''B'' ''#b'' E1later emptyWorld)))
       = ''#E1,https://a/1''
   \<and> map fst (entriesData (snd (createEntryData quiet ''tech'' ''A'' ''#a'' E1 emptyWorld)))
       = [''#E1,https://a/1.json'']"
proof -
  have a: "createEntryData quiet ''tech'' ''A'' ''#a'' E1 emptyWorld
     = (Inr (projr (fst (createEntryData quiet ''tech'' ''A'' ''#a'' E1 emptyWorld))),
        snd (createEntryData quiet ''tech'' ''A'' ''#a'' E1 emptyWorld))"
    by (simp add: createEntryData_def Let_def refused_def quiet_def)
  have b: "createEntryData quiet ''news'' ''B'' ''#b'' E1later emptyWorld
     = (Inr (projr (fst (createEntryData quiet ''news'' ''B'' ''#b'' E1later emptyWorld))),
        snd (createEntryData quiet ''news'' ''B'' ''#b'' E1later emptyWorld))"
    by (simp add: createEntryData_def Let_def refused_def quiet_def)
  have c: "Entry.title E1 = Entry.title E1later" "Entry.link E1 = Entry.link E1later"
    by (simp_all add: E1_def E1later_def)
  have d: "createHash quiet (Entry.title E1 @ '','' @ Entry.link E1) = ''#E1,https://a/1''"
    by (simp add: createHash_def quiet_def E1_def)
  have e: "map fst (entriesData (snd (createEntryData quiet ''tech'' ''A'' ''#a'' E1 emptyWorld)))
       = [''#E1,https://a/1.json'']"
    by (simp add: createEntryData_def Let_def refused_def quiet_def createHash_def E1_def
          emptyWorld_def emit_def)
  from createEntryData_identifier [OF a b c] a b c d e show ?thesis
    by (simp add: E1_def E1later_def)
qed

subsection \<open>Site identifiers\<close>

lemma createSitesData_siteHash:
  "createSitesData env c sites' w = (Inr result, w') \<Longrightarrow>
   map SiteData.siteHash result =
     map (\<lambda>site. createHash env (substring site 0 (int (length site) - 5))) sites'"
proof (induction sites' arbitrary: w result)
  case Nil
  then show ?case by simp
next
  case (Cons site rest)
  then show ?case
    by (auto simp: Let_def split: sum.splits prod.splits option.splits)
qed

text \<open>
  Claim C8. The site identifiers that \<open>createSitesData\<close> returns are the hashes of the
  file names without \<open>.json\<close>: two runs over the same file names give the same
  identifiers, whatever the category, the titles and the rest of the files' content.
\<close>

theorem siteHash_from_file_name:
  assumes "createSitesData env c1 (map (\<lambda>b. b @ ''.json'') bases) w1 = (Inr r1, w1')"
      and "createSitesData env c2 (map (\<lambda>b. b @ ''.json'') bases) w2 = (Inr r2, w2')"
  shows "map SiteData.siteHash r1 = map (createHash env) bases
       \<and> map SiteData.siteHash r2 = map SiteData.siteHash r1"
proof -
  have "map SiteData.siteHash r = map (createHash env) bases"
    if "createSitesData env c (map (\<lambda>b. b @ ''.json'') bases) w = (Inr r, w')" for c w r w'
    using createSitesData_siteHash [OF that] substring_json by (simp add: comp_def)
  with assms show ?thesis by metis
qed

theorem siteHash_from_file_name_witness:
  "map SiteData.siteHash (projr (fst (createSitesData quiet ''tech'' [''a.json''] techWorld)))
     = [''#a'']
   \<and> map SiteData.siteHash (projr (fst (createSitesData quiet ''tech'' [''a.json''] renamedWorld)))
     = [''#a'']
   \<and> map SiteData.title (projr (fst (createSitesData quiet ''tech'' [''a.json''] techWorld)))
     = [''A'']
   \<and> map SiteData.title (projr (fst (createSitesData quiet ''tech'' [''a.json''] renamedWorld)))
     = [''A renamed'']"
proof -
  let ?r1 = "createSitesData quiet ''tech'' (map (\<lambda>b. b @ ''.json'') [''a'']) techWorld"
  let ?r2 = "createSitesData quiet ''tech'' (map (\<lambda>b. b @ ''.json'') [''a'']) renamedWorld"
  have a: "?r1 = (Inr (projr (fst ?r1)), snd ?r1)"
    by (simp add: program_defs example_defs)
  have b: "?r2 = (Inr (projr (fst ?r2)), snd ?r2)"
    by (simp add: program_defs example_defs)
  have c: "map SiteData.title (projr (fst ?r1)) = [''A'']"
    "map SiteData.title (projr (fst ?r2)) = [''A renamed'']"
    by (simp_all add: program_defs example_defs)
  from siteHash_from_file_name [OF a b] c show ?thesis
    by (simp add: createHash_def quiet_def)
qed

subsection \<open>Cache eviction\<close>

lemma unlinkAll_result:
  "unlinkAll env names w = (Inr u, w') \<Longrightarrow> workspaceReadabilityCache w = Some files \<Longrightarrow>
   w' = w\<lparr>workspaceReadabilityCache := Some (filter (\<lambda>(file, _). file \<notin> set names) files)\<rparr>"
proof (induction names arbitrary: w files)
  case Nil
  then show ?case by simp
next
  case (Cons oldEntry rest)
  from Cons.prems have ok: "refused env (UnlinkSync (Join WORKSPACE_READABILITY_CACHE_PATH oldEntry)) = None"
    "oldEntry \<in> fst ` set files"
    and rest: "unlinkAll env rest (w\<lparr>workspaceReadabilityCache := Some (AList.delete oldEntry files)\<rparr>) = (Inr u, w')"
    by (auto split: option.splits if_splits)
  have "w' = w\<lparr>workspaceReadabilityCache := Some (AList.delete oldEntry files)\<rparr>
           \<lparr>workspaceReadabilityCache := Some (filter (\<lambda>(file, _). file \<notin> set rest) (AList.delete oldEntry files))\<rparr>"
    by (rule Cons.IH [OF rest]) simp
  moreover have "filter (\<lambda>(file, _). file \<notin> set rest) (AList.delete oldEntry files)
      = filter (\<lambda>(file, _). file \<notin> set (oldEntry # rest)) files"
    by (auto simp: AList.delete_eq intro: filter_cong)
  ultimately show ?case by simp
qed

lemma unlinkAll_succeeds:
  "\<forall>c. oserr env c = None \<Longrightarrow> workspaceReadabilityCache w = Some files \<Longrightarrow>
   distinct names \<Longrightarrow> set names \<subseteq> fst ` set files \<Longrightarrow>
   \<exists>w'. unlinkAll env names w = (Inr (), w')"
proof (induction names arbitrary: w files)
  case Nil
  then show ?case by simp
next
  case (Cons oldEntry rest)
  have "set rest \<subseteq> fst ` set (AList.delete oldEntry files)"
    using Cons.prems(3,4) by (force simp: AList.delete_eq)
  with Cons.IH [of "w\<lparr>workspaceReadabilityCache := Some (AList.delete oldEntry files)\<rparr>" "AList.delete oldEntry files"]
    Cons.prems
  show ?case by (auto simp: refused_def)
qed

text \<open>
  Claim C2. When the operating system refuses no call, the eviction returns; and when it
  returns, the workspace cache holds exactly the files it held before whose name is the
  name of an entry file, with their content and in their order: the others are deleted.
  A cache file and an entry file of the same identifier have the same name, the identifier
  followed by \<open>.json\<close>.
\<close>

theorem evictOldCaches_exact:
  assumes "workspaceReadabilityCache w = Some files"
  shows "((\<forall>c. oserr env c = None) \<longrightarrow>
            fst (evictOldCaches env w) = Inr (map fst (entriesData w)))
       \<and> (\<forall>entries' w'. evictOldCaches env w = (Inr entries', w') \<longrightarrow>
            workspaceReadabilityCache w' =
              Some (filter (\<lambda>(file, _). file \<in> fst ` set (entriesData w)) files)
            \<and> entriesData w' = entriesData w
            \<and> readabilityCache w' = readabilityCache w)"
proof -
  let ?names = "fold removeAll (map fst (entriesData w)) (newSet (map fst files))"
  let ?w1 = "emit (ConsoleLogSize ''Delete old caches'' (length ?names)) w"
  have total: "fst (evictOldCaches env w) = Inr (map fst (entriesData w))"
    if quiet: "\<forall>c. oserr env c = None"
  proof -
    have "\<exists>w'. unlinkAll env ?names ?w1 = (Inr (), w')"
      by (rule unlinkAll_succeeds [OF quiet, of _ files])
         (auto simp: emit_def assms distinct_fold_removeAll distinct_newSet
            set_fold_removeAll set_newSet)
    then show ?thesis
      using quiet assms by (auto simp: evictOldCaches_def refused_def Let_def)
  qed
  have exact: "workspaceReadabilityCache w' =
              Some (filter (\<lambda>(file, _). file \<in> fst ` set (entriesData w)) files)
            \<and> entriesData w' = entriesData w
            \<and> readabilityCache w' = readabilityCache w"
    if run: "evictOldCaches env w = (Inr entries', w')" for entries' w'
  proof -
    from run obtain u where un: "unlinkAll env ?names ?w1 = (Inr u, w')"
      using assms
      by (auto simp: evictOldCaches_def Let_def split: option.splits sum.splits prod.splits)
    have w': "w' = ?w1\<lparr>workspaceReadabilityCache :=
                        Some (filter (\<lambda>(file, _). file \<notin> set ?names) files)\<rparr>"
      by (rule unlinkAll_result [OF un]) (simp add: emit_def assms)
    have "filter (\<lambda>(file, _). file \<notin> set ?names) files
        = filter (\<lambda>(file, _). file \<in> fst ` set (entriesData w)) files"
      by (rule filter_cong) (force simp: set_fold_removeAll set_newSet)+
    with w' show ?thesis
      by (simp add: emit_def)
  qed
  from total exact show ?thesis by blast
qed

theorem evictOldCaches_exact_witness:
  "fst (evictOldCaches quiet cacheWorld) = Inr [''B.json'', ''C.json'', ''D.json'']
   \<and> workspaceReadabilityCache (snd (evictOldCaches quiet cacheWorld))
       = Some [(''B.json'', cacheNamed ''B''), (''C.json'', cacheNamed ''C'')]"
proof -
  have a: "workspaceReadabilityCache cacheWorld
             = Some [(''A.json'', cacheNamed ''A''), (''B.json'', cacheNamed ''B''),
                     (''C.json'', cacheNamed ''C'')]"
    by (simp add: cacheWorld_def)
  have q: "\<forall>c. oserr quiet c = None"
    by (simp add: quiet_def)
  have e: "map fst (entriesData cacheWorld) = [''B.json'', ''C.json'', ''D.json'']"
    by (simp add: cacheWorld_def)
  from evictOldCaches_exact [OF a, of quiet] q
  have r: "fst (evictOldCaches quiet cacheWorld) = Inr (map fst (entriesData cacheWorld))"
    by blast
  then have "evictOldCaches quiet cacheWorld
               = (Inr (map fst (entriesData cacheWorld)), snd (evictOldCaches quiet cacheWorld))"
    by (simp add: prod_eq_iff)
  with evictOldCaches_exact [OF a, of quiet]
  have "workspaceReadabilityCache (snd (evictOldCaches quiet cacheWorld)) =
          Some (filter (\<lambda>(f, _). f \<in> fst ` set (entriesData cacheWorld))
                  [(''A.json'', cacheNamed ''A''), (''B.json'', cacheNamed ''B''),
                   (''C.json'', cacheNamed ''C'')])"
    by blast
  with r e show ?thesis
    by (simp add: cacheWorld_def)
qed

subsection \<open>The events of the fill loop\<close>

lemma released_append:
  "released p evs1 \<Longrightarrow> released False evs2 \<Longrightarrow> released p (evs1 @ evs2)"
  by (induction p evs1 rule: released.induct) auto

lemma released_tail:
  "\<forall>g j. LoadContent g j \<notin> set evs \<Longrightarrow> \<forall>g. NextEntry g \<notin> set evs \<Longrightarrow>
   released p (evs @ [ConsoleLog m, Close])"
proof (induction evs arbitrary: p)
  case Nil
  then show ?case by simp
next
  case (Cons ev evs)
  then show ?case by (cases ev) auto
qed

lemma callClose_cases:
  "callClose env w = (r, w') \<Longrightarrow> w' = emit Close w"
  by (auto simp: callClose_def split: option.splits)

lemma tryLoad_trace:
  "tryLoad env f h json w = (r, w') \<Longrightarrow>
   \<exists>evs. trace w' = trace w @ LoadContent f json # evs
      \<and> (\<forall>g j. LoadContent g j \<notin> set evs) \<and> (\<forall>g. NextEntry g \<notin> set evs)
      \<and> (case r of Inr u \<Rightarrow> released True evs | Inl e \<Rightarrow> True)
      \<and> workspaceReadabilityCache w' = workspaceReadabilityCache w
      \<and> entriesData w' = entriesData w"
  by (auto simp: tryLoad_def Let_def emit_def callClose_def split: option.splits sum.splits if_splits)

lemma statSync_emit [simp]: "statSync env file (emit ev w) = statSync env file w"
  by (simp add: statSync_def emit_def split: option.splits)

lemma readEntry_emit [simp]: "readEntry env file (emit ev w) = readEntry env file w"
  by (simp add: readEntry_def emit_def split: option.splits)

lemma statSync_cong:
  "workspaceReadabilityCache w1 = workspaceReadabilityCache w \<Longrightarrow>
   statSync env file w1 = statSync env file w"
  by (simp add: statSync_def split: option.splits)

lemma readEntry_cong:
  "entriesData w1 = entriesData w \<Longrightarrow> readEntry env f w1 = readEntry env f w"
  by (simp add: readEntry_def split: option.splits)

lemma loadEntry_trace:
  assumes "loadEntry env f w = (r, w')"
  shows "\<exists>evs. trace w' = trace w @ NextEntry f # evs \<and> released False evs
      \<and> (\<forall>g. NextEntry g \<notin> set evs)
      \<and> (\<forall>g j. LoadContent g j \<in> set evs \<longrightarrow>
            g = f \<and> (\<exists>e. statSync env (entryHashOf f @ ''.json'') w = Inl e
                        \<and> errorCode e = Some ''ENOENT''))
      \<and> workspaceReadabilityCache w' = workspaceReadabilityCache w
      \<and> entriesData w' = entriesData w"
proof (cases "statSync env (entryHashOf f @ ''.json'') w")
  case (Inr u)
  with assms show ?thesis
    by (auto simp: loadEntry_def Let_def entryHashOf_def) (auto simp: emit_def)
next
  case (Inl error)
  show ?thesis
  proof (cases "errorCode error = Some ''ENOENT''")
    case False
    with Inl assms show ?thesis
      by (auto simp: loadEntry_def Let_def entryHashOf_def) (auto simp: emit_def)
  next
    case True
    show ?thesis
    proof (cases "readEntry env f w")
      case (Inl e)
      with True \<open>statSync env (entryHashOf f @ ''.json'') w = Inl error\<close> assms show ?thesis
        by (auto simp: loadEntry_def Let_def entryHashOf_def) (auto simp: emit_def)
    next
      case (Inr json)
      let ?w1 = "emit (ConsoleLog (entryHashOf f @ '' - Load '' @ Entry.link json))
                   (emit (NextEntry f) w)"
      obtain r1 w1 where t: "tryLoad env f (entryHashOf f) json ?w1 = (r1, w1)"
        by (cases "tryLoad env f (entryHashOf f) json ?w1") auto
      from tryLoad_trace [OF t] obtain evs where
        evs: "trace w1 = trace ?w1 @ LoadContent f json # evs"
          "\<forall>g j. LoadContent g j \<notin> set evs" "\<forall>g. NextEntry g \<notin> set evs"
          "case r1 of Inr u \<Rightarrow> released True evs | Inl e \<Rightarrow> True"
          "workspaceReadabilityCache w1 = workspaceReadabilityCache ?w1"
          "entriesData w1 = entriesData ?w1"
        by blast
      show ?thesis
      proof (cases r1)
        case (Inr u)
        with t evs True \<open>statSync env (entryHashOf f @ ''.json'') w = Inl error\<close>
          \<open>readEntry env f w = Inr json\<close> assms
        show ?thesis
          by (auto simp: loadEntry_def Let_def entryHashOf_def) (auto simp: emit_def)
      next
        case (Inl e)
        let ?w2 = "emit (ConsoleLog (entryHashOf f @ '' - Fail to load '' @ Entry.link json)) w1"
        from Inl t True \<open>statSync env (entryHashOf f @ ''.json'') w = Inl error\<close>
          \<open>readEntry env f w = Inr json\<close> assms
        have "callClose env ?w2 = (r, w')"
          by (auto simp: loadEntry_def Let_def entryHashOf_def)
        then have w': "w' = emit Close ?w2" by (rule callClose_cases)
        have "released True
                (evs @ [ConsoleLog (entryHashOf f @ '' - Fail to load '' @ Entry.link json), Close])"
          by (rule released_tail) (use evs in auto)
        with w' evs True \<open>statSync env (entryHashOf f @ ''.json'') w = Inl error\<close>
        show ?thesis
          by (auto simp: emit_def)
      qed
    qed
  qed
qed

lemma loadEntries_trace:
  "loadEntries env es w = (r, w') \<Longrightarrow>
   \<exists>evs. trace w' = trace w @ evs \<and> released False evs
      \<and> (\<forall>g j. LoadContent g j \<in> set evs \<longrightarrow>
            g \<in> set es \<and> (\<exists>e. statSync env (entryHashOf g @ ''.json'') w = Inl e
                        \<and> errorCode e = Some ''ENOENT''))
      \<and> workspaceReadabilityCache w' = workspaceReadabilityCache w
      \<and> entriesData w' = entriesData w"
proof (induction es arbitrary: w)
  case Nil
  then show ?case by simp
next
  case (Cons f rest)
  obtain r1 w1 where step: "loadEntry env f w = (r1, w1)"
    by (cases "loadEntry env f w") auto
  from loadEntry_trace [OF step] obtain evs1 where
    evs1: "trace w1 = trace w @ NextEntry f # evs1" "released False evs1"
      "\<forall>g j. LoadContent g j \<in> set evs1 \<longrightarrow>
            g = f \<and> (\<exists>e. statSync env (entryHashOf f @ ''.json'') w = Inl e
                        \<and> errorCode e = Some ''ENOENT'')"
      "workspaceReadabilityCache w1 = workspaceReadabilityCache w"
      "entriesData w1 = entriesData w"
    by blast
  show ?case
  proof (cases r1)
    case (Inl e)
    with step Cons.prems have "w' = w1" by simp
    with evs1 show ?thesis by auto
  next
    case (Inr u)
    with step Cons.prems have "loadEntries env rest w1 = (r, w')" by simp
    from Cons.IH [OF this] obtain evs2 where
      evs2: "trace w' = trace w1 @ evs2" "released False evs2"
        "\<forall>g j. LoadContent g j \<in> set evs2 \<longrightarrow>
            g \<in> set rest \<and> (\<exists>e. statSync env (entryHashOf g @ ''.json'') w1 = Inl e
                        \<and> errorCode e = Some ''ENOENT'')"
        "workspaceReadabilityCache w' = workspaceReadabilityCache w1"
        "entriesData w' = entriesData w1"
      by blast
    have same: "statSync env fl w1 = statSync env fl w" for fl
      by (rule statSync_cong) (rule evs1)
    have "released False ((NextEntry f # evs1) @ evs2)"
      by (rule released_append) (use evs1 evs2 in auto)
    with evs1 evs2 same show ?thesis
      by (intro exI [of _ "NextEntry f # evs1 @ evs2"]) auto
  qed
qed

text \<open>
  Claim C4. In the events of the loop, however each call ends, every call of
  \<open>loadContent\<close> is followed by a call of \<open>close\<close> before the loop takes the next entry
  and before the next call of \<open>loadContent\<close>.
\<close>

theorem release_after_every_fetch:
  "\<exists>evs. trace (snd (loadEntries env es w)) = trace w @ evs \<and> released False evs"
  using loadEntries_trace [of env es w "fst (loadEntries env es w)" "snd (loadEntries env es w)"]
  by auto

theorem release_after_every_fetch_witness:
  "trace (snd (loadEntries offline [''B.json'', ''C.json'', ''D.json''] cacheWorld))
     = [NextEntry ''B.json'', ConsoleLog ''B - Readability loaded, skip'',
        NextEntry ''C.json'', ConsoleLog ''C - Readability loaded, skip'',
        NextEntry ''D.json'', ConsoleLog ''D - Load https://a/D'',
        LoadContent ''D.json'' (entryNamed ''D''),
        ConsoleLog ''D - Fail to load https://a/D'', Close]
   \<and> released False
        (trace (snd (loadEntries offline [''B.json'', ''C.json'', ''D.json''] cacheWorld)))"
proof -
  let ?run = "loadEntries offline [''B.json'', ''C.json'', ''D.json''] cacheWorld"
  have t: "trace cacheWorld = []"
    by (simp add: cacheWorld_def emptyWorld_def)
  have e: "trace (snd ?run)
     = [NextEntry ''B.json'', ConsoleLog ''B - Readability loaded, skip'',
        NextEntry ''C.json'', ConsoleLog ''C - Readability loaded, skip'',
        NextEntry ''D.json'', ConsoleLog ''D - Load https://a/D'',
        LoadContent ''D.json'' (entryNamed ''D''),
        ConsoleLog ''D - Fail to load https://a/D'', Close]"
    by (simp add: program_defs example_defs)
  from release_after_every_fetch [of offline "[''B.json'', ''C.json'', ''D.json'']" cacheWorld]
    t e show ?thesis
    by auto
qed

text \<open>
  Claim C3. When the cache record of an entry file is in the workspace cache at the start
  of the loop, and \<open>statSync\<close> does not report it missing, the loop does not call
  \<open>loadContent\<close> for that entry file, and it leaves the workspace cache as it was.
\<close>

theorem cached_entry_not_fetched:
  assumes "workspaceReadabilityCache w = Some files"
      and "entryHashOf f @ ''.json'' \<in> fst ` set files"
      and "oserr env (StatSync (Join WORKSPACE_READABILITY_CACHE_PATH (entryHashOf f @ ''.json'')))
             \<noteq> Some ''ENOENT''"
      and "loadEntries env es w = (r, w')"
  shows "workspaceReadabilityCache w' = Some files
       \<and> (\<exists>evs. trace w' = trace w @ evs \<and> (\<forall>json. LoadContent f json \<notin> set evs))"
proof -
  have "\<not> (\<exists>e. statSync env (entryHashOf f @ ''.json'') w = Inl e \<and> errorCode e = Some ''ENOENT'')"
    using assms(1-3) by (auto simp: statSync_def refused_def split: option.splits)
  with loadEntries_trace [OF assms(4)] assms(1) show ?thesis by metis
qed

theorem cached_entry_not_fetched_witness:
  "entryHashOf ''B.json'' = ''B''
   \<and> workspaceReadabilityCache
        (snd (loadEntries quiet [''B.json'', ''C.json'', ''D.json''] cacheWorld))
       = workspaceReadabilityCache cacheWorld
   \<and> (\<forall>json. LoadContent ''B.json'' json
         \<notin> set (trace (snd (loadEntries quiet [''B.json'', ''C.json'', ''D.json''] cacheWorld))))
   \<and> LoadContent ''D.json'' (entryNamed ''D'')
         \<in> set (trace (snd (loadEntries quiet [''B.json'', ''C.json'', ''D.json''] cacheWorld)))"
proof -
  let ?run = "loadEntries quiet [''B.json'', ''C.json'', ''D.json''] cacheWorld"
  have h: "entryHashOf ''B.json'' = ''B''"
    by (simp add: entryHashOf_def slice_def)
  have a: "workspaceReadabilityCache cacheWorld
             = Some [(''A.json'', cacheNamed ''A''), (''B.json'', cacheNamed ''B''),
                     (''C.json'', cacheNamed ''C'')]"
    by (simp add: cacheWorld_def)
  have b: "entryHashOf ''B.json'' @ ''.json''
             \<in> fst ` set [(''A.json'', cacheNamed ''A''), (''B.json'', cacheNamed ''B''),
                           (''C.json'', cacheNamed ''C'')]"
    by (simp add: h)
  have c: "oserr quiet (StatSync (Join WORKSPACE_READABILITY_CACHE_PATH
                                    (entryHashOf ''B.json'' @ ''.json''))) \<noteq> Some ''ENOENT''"
    by (simp add: quiet_def)
  have d: "?run = (fst ?run, snd ?run)"
    by simp
  have t: "trace cacheWorld = []"
    by (simp add: cacheWorld_def emptyWorld_def)
  have f: "LoadContent ''D.json'' (entryNamed ''D'') \<in> set (trace (snd ?run))"
    by (simp add: program_defs example_defs)
  from cached_entry_not_fetched [OF a b c d] h a t f show ?thesis
    by auto
qed

subsection \<open>Errors of one enrichment\<close>

lemma loadEntry_returns:
  assumes "\<forall>n. close env n = None" and "readEntry env f w = Inr json"
  shows "\<exists>w'. loadEntry env f w = (Inr (), w')"
  using assms
  by (auto simp: loadEntry_def tryLoad_def callClose_def Let_def
           split: sum.splits option.splits prod.splits)

lemma loadEntries_returns:
  assumes "\<forall>n. close env n = None"
  shows "\<forall>f\<in>set es. \<exists>json. readEntry env f w = Inr json \<Longrightarrow>
         \<exists>w'. loadEntries env es w = (Inr (), w')"
proof (induction es arbitrary: w)
  case Nil
  then show ?case by simp
next
  case (Cons f rest)
  then obtain json where "readEntry env f w = Inr json" by auto
  from loadEntry_returns [OF assms this] obtain w1 where
    step: "loadEntry env f w = (Inr (), w1)" by blast
  from loadEntry_trace [OF step] have "entriesData w1 = entriesData w" by blast
  then have "readEntry env g w1 = readEntry env g w" for g
    by (rule readEntry_cong)
  with Cons.prems have "\<forall>g\<in>set rest. \<exists>json. readEntry env g w1 = Inr json" by simp
  from Cons.IH [OF this] step show ?case by simp
qed










subsection \<open>Errors of the pass\<close>

lemma refused_ErrorObject: "refused env c = Some e \<Longrightarrow> \<exists>code. e = ErrorObject code"
  by (auto simp: refused_def)

lemma firstRefused_ErrorObject: "firstRefused env cs = Some e \<Longrightarrow> \<exists>code. e = ErrorObject code"
  by (induction cs) (auto split: option.splits dest: refused_ErrorObject)

lemma prepareDirectories_throws:
  "prepareDirectories env w = (Inl e, w') \<Longrightarrow> \<exists>code. e = ErrorObject code"
  by (auto simp: prepareDirectories_def ENOENT_def
           split: option.splits if_splits dest: refused_ErrorObject firstRefused_ErrorObject)

lemma createEntryData_throws:
  "createEntryData env c t s entry w = (Inl e, w') \<Longrightarrow> \<exists>code. e = ErrorObject code"
  by (auto simp: createEntryData_def Let_def split: option.splits dest: refused_ErrorObject)

lemma mapEntries_throws:
  "mapEntries env c t s es w = (Inl e, w') \<Longrightarrow> \<exists>code. e = ErrorObject code"
  by (induction es arbitrary: w)
     (auto split: sum.splits prod.splits dest: createEntryData_throws)

lemma readSite_throws: "readSite env c site w = Inl e \<Longrightarrow> \<exists>code. e = ErrorObject code"
  by (auto simp: readSite_def ENOENT_def
           split: option.splits feed_file.splits dest: refused_ErrorObject)

lemma createSitesData_throws:
  "createSitesData env c sites' w = (Inl e, w') \<Longrightarrow> \<exists>code. e = ErrorObject code"
  by (induction sites' arbitrary: w)
     (auto simp: Let_def split: sum.splits prod.splits option.splits
           dest: readSite_throws mapEntries_throws refused_ErrorObject)

lemma createCategories_throws:
  "createCategories env cs w = (Inl e, w') \<Longrightarrow> \<exists>code. e = ErrorObject code"
  by (induction cs arbitrary: w)
     (auto simp: Let_def ENOENT_def split: sum.splits prod.splits option.splits
           dest: createSitesData_throws refused_ErrorObject)

lemma createCategoryData_throws:
  "createCategoryData env w = (Inl e, w') \<Longrightarrow> \<exists>code. e = ErrorObject code"
  by (auto simp: createCategoryData_def Let_def ENOENT_def
           split: sum.splits prod.splits option.splits
           dest: createCategories_throws refused_ErrorObject)

lemma readEntry_throws: "readEntry env f w = Inl e \<Longrightarrow> \<exists>code. e = ErrorObject code"
  by (auto simp: readEntry_def ENOENT_def split: option.splits dest: refused_ErrorObject)

lemma readEntries_throws: "readEntries env fs w = Inl e \<Longrightarrow> \<exists>code. e = ErrorObject code"
  by (induction fs) (auto split: sum.splits dest: readEntry_throws)

lemma createAllEntriesData_throws:
  "createAllEntriesData env w = (Inl e, w') \<Longrightarrow> \<exists>code. e = ErrorObject code"
  by (auto simp: createAllEntriesData_def split: sum.splits option.splits
           dest: readEntries_throws refused_ErrorObject)

text \<open>
  Claim C6. An error thrown by \<open>prepareDirectories\<close>, by \<open>createCategoryData\<close> or by
  \<open>createAllEntriesData\<close> is given to \<open>core.setFailed\<close> and thrown again by
  \<open>prepareEleventyData\<close>.
\<close>

theorem fatal_errors_fail_the_run:
  "(prepareDirectories env (emit (ConsoleLog ''Preparing eleventy data'') w) = (Inl e, w1) \<longrightarrow>
      prepareEleventyData env w = (Inl e, emit (SetFailed e) w1))
   \<and> (prepareDirectories env (emit (ConsoleLog ''Preparing eleventy data'') w) = (Inr (), w1)
      \<and> createRepositoryData env (GITHUB_REPOSITORY env) (customDomain env) w1 = (Inr data, w2)
      \<and> createCategoryData env w2 = (Inl e, w3) \<longrightarrow>
      prepareEleventyData env w = (Inl e, emit (SetFailed e) w3))
   \<and> (prepareDirectories env (emit (ConsoleLog ''Preparing eleventy data'') w) = (Inr (), w1)
      \<and> createRepositoryData env (GITHUB_REPOSITORY env) (customDomain env) w1 = (Inr data, w2)
      \<and> createCategoryData env w2 = (Inr (), w3)
      \<and> createAllEntriesData env w3 = (Inl e, w4) \<longrightarrow>
      prepareEleventyData env w = (Inl e, emit (SetFailed e) w4))"
proof (intro conjI impI)
  assume "prepareDirectories env (emit (ConsoleLog ''Preparing eleventy data'') w) = (Inl e, w1)"
  moreover from this have "e \<noteq> Primitive ''ENOENT''"
    by (auto dest: prepareDirectories_throws)
  ultimately show "prepareEleventyData env w = (Inl e, emit (SetFailed e) w1)"
    by (simp add: prepareEleventyData_def runPass_def Let_def)
next
  assume a: "prepareDirectories env (emit (ConsoleLog ''Preparing eleventy data'') w) = (Inr (), w1)
      \<and> createRepositoryData env (GITHUB_REPOSITORY env) (customDomain env) w1 = (Inr data, w2)
      \<and> createCategoryData env w2 = (Inl e, w3)"
  then have "e \<noteq> Primitive ''ENOENT''"
    by (auto dest: createCategoryData_throws)
  with a show "prepareEleventyData env w = (Inl e, emit (SetFailed e) w3)"
    by (simp add: prepareEleventyData_def runPass_def Let_def)
next
  assume a: "prepareDirectories env (emit (ConsoleLog ''Preparing eleventy data'') w) = (Inr (), w1)
      \<and> createRepositoryData env (GITHUB_REPOSITORY env) (customDomain env) w1 = (Inr data, w2)
      \<and> createCategoryData env w2 = (Inr (), w3)
      \<and> createAllEntriesData env w3 = (Inl e, w4)"
  then have "e \<noteq> Primitive ''ENOENT''"
    by (auto dest: createAllEntriesData_throws)
  with a show "prepareEleventyData env w = (Inl e, emit (SetFailed e) w4)"
    by (simp add: prepareEleventyData_def runPass_def Let_def)
qed

theorem fatal_errors_fail_the_run_witness:
  "prepareEleventyData quiet missingWorld
     = (Inl ENOENT,
        emit (SetFailed ENOENT) (emit (ConsoleLog ''Preparing eleventy data'') missingWorld))
   \<and> fst (prepareEleventyData quiet brokenWorld) = Inl (ErrorObject None)
   \<and> last (trace (snd (prepareEleventyData quiet brokenWorld))) = SetFailed (ErrorObject None)
   \<and> fst (prepareEleventyData readonly techWorld) = Inl (ErrorObject (Some ''EACCES''))
   \<and> last (trace (snd (prepareEleventyData readonly techWorld)))
       = SetFailed (ErrorObject (Some ''EACCES''))"
proof -
  let ?say = "emit (ConsoleLog ''Preparing eleventy data'')"
  have m: "prepareDirectories quiet (?say missingWorld) = (Inl ENOENT, ?say missingWorld)"
    by (simp add: program_defs example_defs)
  note m' = fatal_errors_fail_the_run [of quiet missingWorld ENOENT "?say missingWorld",
      THEN conjunct1, rule_format, OF m]
  let ?b2 = "snd (createRepositoryData quiet (GITHUB_REPOSITORY quiet) (customDomain quiet)
                    (?say brokenWorld))"
  let ?b3 = "snd (createCategoryData quiet ?b2)"
  have b: "prepareDirectories quiet (?say brokenWorld) = (Inr (), ?say brokenWorld)
      \<and> createRepositoryData quiet (GITHUB_REPOSITORY quiet) (customDomain quiet) (?say brokenWorld)
          = (Inr \<lparr>repository = ''/feeds''\<rparr>, ?b2)
      \<and> createCategoryData quiet ?b2 = (Inl (ErrorObject None), ?b3)"
    by (simp add: program_defs example_defs)
  note b' = fatal_errors_fail_the_run [of quiet brokenWorld "ErrorObject None" "?say brokenWorld"
      "\<lparr>repository = ''/feeds''\<rparr>" ?b2 ?b3,
      THEN conjunct2, THEN conjunct1, rule_format, OF b]
  let ?t2 = "snd (createRepositoryData readonly (GITHUB_REPOSITORY readonly)
                    (customDomain readonly) (?say techWorld))"
  let ?t3 = "snd (createCategoryData readonly ?t2)"
  let ?t4 = "snd (createAllEntriesData readonly ?t3)"
  have t: "prepareDirectories readonly (?say techWorld) = (Inr (), ?say techWorld)
      \<and> createRepositoryData readonly (GITHUB_REPOSITORY readonly) (customDomain readonly)
            (?say techWorld)
          = (Inr \<lparr>repository = ''/feeds''\<rparr>, ?t2)
      \<and> createCategoryData readonly ?t2 = (Inr (), ?t3)
      \<and> createAllEntriesData readonly ?t3 = (Inl (ErrorObject (Some ''EACCES'')), ?t4)"
    by (simp add: program_defs example_defs)
  note t' = fatal_errors_fail_the_run [of readonly techWorld "ErrorObject (Some ''EACCES'')"
      "?say techWorld" "\<lparr>repository = ''/feeds''\<rparr>" ?t2 ?t3 ?t4,
      THEN conjunct2, THEN conjunct2, rule_format, OF t]
  from m' b' t' show ?thesis
    by (simp add: emit_def)
qed

subsection \<open>Errors of the eviction\<close>

lemma unlinkAll_refused:
  "workspaceReadabilityCache w = Some files \<Longrightarrow> distinct names \<Longrightarrow>
   set names \<subseteq> fst ` set files \<Longrightarrow>
   \<exists>f\<in>set names. refused env (UnlinkSync (Join WORKSPACE_READABILITY_CACHE_PATH f)) \<noteq> None \<Longrightarrow>
   \<exists>e w' f. unlinkAll env names w = (Inl e, w') \<and> f \<in> set names
      \<and> refused env (UnlinkSync (Join WORKSPACE_READABILITY_CACHE_PATH f)) = Some e
      \<and> trace w' = trace w \<and> readabilityCache w' = readabilityCache w
      \<and> entriesData w' = entriesData w"
proof (induction names arbitrary: w files)
  case Nil
  then show ?case by simp
next
  case (Cons oldEntry rest)
  show ?case
  proof (cases "refused env (UnlinkSync (Join WORKSPACE_READABILITY_CACHE_PATH oldEntry))")
    case (Some e)
    then show ?thesis by auto
  next
    case None
    let ?w1 = "w\<lparr>workspaceReadabilityCache := Some (AList.delete oldEntry files)\<rparr>"
    have sub: "set rest \<subseteq> fst ` set (AList.delete oldEntry files)"
      using Cons.prems(2,3) by (force simp: AList.delete_eq)
    have ex: "\<exists>f\<in>set rest. refused env (UnlinkSync (Join WORKSPACE_READABILITY_CACHE_PATH f)) \<noteq> None"
      using Cons.prems(4) None by auto
    from Cons.IH [of ?w1 "AList.delete oldEntry files", OF _ _ sub ex] Cons.prems(2)
    obtain e w' f where "unlinkAll env rest ?w1 = (Inl e, w')" "f \<in> set rest"
      "refused env (UnlinkSync (Join WORKSPACE_READABILITY_CACHE_PATH f)) = Some e"
      "trace w' = trace w" "readabilityCache w' = readabilityCache w"
      "entriesData w' = entriesData w"
      by auto
    with None Cons.prems(1,3) show ?thesis
      by (intro exI [of _ e] exI [of _ w'] exI [of _ f]) auto
  qed
qed

text \<open>
  Claim C9, as amended. The eviction handles no error of \<open>unlinkSync\<close>, file-not-found
  included: when the operating system refuses the unlink of an old cache file, the error
  of a refused unlink leaves \<open>loadEntryWithPuppeteer\<close>; the loop over the entries does
  not start, so nothing is fetched and no cache record is written.
\<close>

theorem unlink_error_leaves_reconciler:
  assumes "workspaceReadabilityCache w = Some files"
      and "oserr env (ReaddirSync ENTRIES_DATA_PATH) = None"
      and "oserr env (ReaddirSync WORKSPACE_READABILITY_CACHE_PATH) = None"
      and "oldEntry \<in> fst ` set files" and "oldEntry \<notin> fst ` set (entriesData w)"
      and "oserr env (UnlinkSync (Join WORKSPACE_READABILITY_CACHE_PATH oldEntry)) = Some code"
  shows "\<exists>e w' f n. loadEntryWithPuppeteer env w = (Inl e, w')
           \<and> f \<in> fst ` set files \<and> f \<notin> fst ` set (entriesData w)
           \<and> refused env (UnlinkSync (Join WORKSPACE_READABILITY_CACHE_PATH f)) = Some e
           \<and> trace w' = trace w @ [ConsoleLogSize ''Delete old caches'' n]
           \<and> readabilityCache w' = readabilityCache w"
proof -
  let ?names = "fold removeAll (map fst (entriesData w)) (newSet (map fst files))"
  let ?w1 = "emit (ConsoleLogSize ''Delete old caches'' (length ?names)) w"
  have names: "set ?names = fst ` set files - fst ` set (entriesData w)"
    by (simp add: set_fold_removeAll set_newSet)
  have "\<exists>e w' f. unlinkAll env ?names ?w1 = (Inl e, w') \<and> f \<in> set ?names
      \<and> refused env (UnlinkSync (Join WORKSPACE_READABILITY_CACHE_PATH f)) = Some e
      \<and> trace w' = trace ?w1 \<and> readabilityCache w' = readabilityCache ?w1
      \<and> entriesData w' = entriesData ?w1"
  proof (rule unlinkAll_refused [of _ files])
    show "workspaceReadabilityCache ?w1 = Some files"
      by (simp add: emit_def assms)
    show "distinct ?names"
      by (simp add: distinct_fold_removeAll distinct_newSet)
    show "set ?names \<subseteq> fst ` set files"
      using names by auto
    show "\<exists>f\<in>set ?names. refused env (UnlinkSync (Join WORKSPACE_READABILITY_CACHE_PATH f)) \<noteq> None"
      using names assms(4-6) by (auto simp: refused_def)
  qed
  then obtain e w' f where
    u: "unlinkAll env ?names ?w1 = (Inl e, w')" "f \<in> set ?names"
      "refused env (UnlinkSync (Join WORKSPACE_READABILITY_CACHE_PATH f)) = Some e"
      "trace w' = trace ?w1" "readabilityCache w' = readabilityCache ?w1"
    by blast
  have "loadEntryWithPuppeteer env w = (Inl e, w')"
    using u(1) assms(1-3)
    by (simp add: loadEntryWithPuppeteer_def evictOldCaches_def refused_def Let_def)
  with u names show ?thesis
    by (intro exI [of _ e] exI [of _ w'] exI [of _ f] exI [of _ "length ?names"])
       (auto simp: emit_def)
qed

theorem unlink_error_leaves_reconciler_witness:
  "fst (loadEntryWithPuppeteer vanished cacheWorld) = Inl ENOENT
   \<and> trace (snd (loadEntryWithPuppeteer vanished cacheWorld))
       = [ConsoleLogSize ''Delete old caches'' 1]
   \<and> readabilityCache (snd (loadEntryWithPuppeteer vanished cacheWorld)) = []"
proof -
  have a: "workspaceReadabilityCache cacheWorld
             = Some [(''A.json'', cacheNamed ''A''), (''B.json'', cacheNamed ''B''),
                     (''C.json'', cacheNamed ''C'')]"
    by (simp add: cacheWorld_def)
  have b: "oserr vanished (ReaddirSync ENTRIES_DATA_PATH) = None"
    "oserr vanished (ReaddirSync WORKSPACE_READABILITY_CACHE_PATH) = None"
    by (simp_all add: vanished_def quiet_def)
  have c: "''A.json'' \<in> fst ` set [(''A.json'', cacheNamed ''A''), (''B.json'', cacheNamed ''B''),
                     (''C.json'', cacheNamed ''C'')]"
    "''A.json'' \<notin> fst ` set (entriesData cacheWorld)"
    by (simp_all add: cacheWorld_def)
  have d: "oserr vanished (UnlinkSync (Join WORKSPACE_READABILITY_CACHE_PATH ''A.json''))
             = Some ''ENOENT''"
    by (simp add: vanished_def quiet_def)
  have e: "fst (loadEntryWithPuppeteer vanished cacheWorld) = Inl ENOENT"
    "trace (snd (loadEntryWithPuppeteer vanished cacheWorld))
       = [ConsoleLogSize ''Delete old caches'' 1]"
    "readabilityCache (snd (loadEntryWithPuppeteer vanished cacheWorld)) = []"
    by (simp_all add: program_defs example_defs)
  from unlink_error_leaves_reconciler [OF a b c d] e show ?thesis
    by simp
qed

text \<open>
  The claim as it was stated fails when the cache file \<open>A.json\<close> is gone at the time of
  its unlink: the error leaves the reconciler before any entry is taken, and the run ends
  with the error.
\<close>

theorem missing_cache_file_aborts_counterexample:
  "oserr vanished (UnlinkSync (Join WORKSPACE_READABILITY_CACHE_PATH ''A.json'')) = Some ''ENOENT''
   \<and> fst (loadEntryWithPuppeteer vanished cacheWorld) = Inl ENOENT
   \<and> trace (snd (loadEntryWithPuppeteer vanished cacheWorld))
       = [ConsoleLogSize ''Delete old caches'' 1]
   \<and> fst (prepareEleventyData vanished cacheWorld) = Inl ENOENT
   \<and> trace (snd (prepareEleventyData vanished cacheWorld))
       = [ConsoleLog ''Preparing eleventy data'', ConsoleLogSize ''Delete old caches'' 1,
          SetFailed ENOENT]"
  by (simp add: program_defs example_defs)

subsection \<open>The entries store\<close>










lemma readEntries_result:
  "readEntries env names w = Inr found \<Longrightarrow>
   map Some found = map (map_of (entriesData w)) names"
  by (induction names arbitrary: found)
     (auto simp: readEntry_def EntryData_rebuild split: sum.splits option.splits)




subsection \<open>The sorts by date\<close>

lemma sortBy_keepsTies: "keepsTies xs (sortBy byDateDesc xs)"
  by (induction xs) (simp_all add: keepsTies_def sortBy_def filter_insertBy sorted_insertBy)

text \<open>
  There is one list that keeps the ties of a given list, so the result of \<open>sortBy\<close> with
  the comparator of the source is the result of every stable sort with it.
\<close>

lemma keepsTies_unique:
  "sorted_wrt (\<lambda>a b. date b \<le> date a) ys \<Longrightarrow> sorted_wrt (\<lambda>a b. date b \<le> date a) zs \<Longrightarrow>
   \<forall>d. filter (\<lambda>e. date e = d) ys = filter (\<lambda>e. date e = d) zs \<Longrightarrow> ys = zs"
proof (induction ys arbitrary: zs)
  case Nil
  show ?case
  proof (cases zs)
    case Nil
    then show ?thesis by simp
  next
    case (Cons z zs')
    from Nil.prems(3) have "[] = filter (\<lambda>e. date e = date z) zs"
      by (simp del: filter.simps add: spec [of _ "date z"])
    with Cons show ?thesis by simp
  qed
next
  case (Cons y ys)
  from Cons.prems(3) have fy: "filter (\<lambda>e. date e = date y) (y # ys) = filter (\<lambda>e. date e = date y) zs"
    by (rule spec)
  then have "y # filter (\<lambda>e. date e = date y) ys = filter (\<lambda>e. date e = date y) zs"
    by simp
  then have yin: "y \<in> set (filter (\<lambda>e. date e = date y) zs)"
    by (metis list.set_intros(1))
  then obtain z zs' where zs: "zs = z # zs'"
    by (cases zs) auto
  from yin have "y \<in> set zs" by simp
  then have le1: "date y \<le> date z"
    using Cons.prems(2) zs by auto
  from Cons.prems(3) have fz: "filter (\<lambda>e. date e = date z) (y # ys) = filter (\<lambda>e. date e = date z) zs"
    by (rule spec)
  then have "filter (\<lambda>e. date e = date z) (y # ys) = z # filter (\<lambda>e. date e = date z) zs'"
    using zs by simp
  then have "z \<in> set (filter (\<lambda>e. date e = date z) (y # ys))"
    by (metis list.set_intros(1))
  then have "z \<in> set (y # ys)" by (simp del: filter.simps)
  then have le2: "date z \<le> date y"
    using Cons.prems(1) by auto
  from le1 le2 have same: "date y = date z" by simp
  from fy zs same have yz: "y = z" by simp
  have tails: "\<forall>d. filter (\<lambda>e. date e = d) ys = filter (\<lambda>e. date e = d) zs'"
  proof
    fix d
    from Cons.prems(3) have "filter (\<lambda>e. date e = d) (y # ys) = filter (\<lambda>e. date e = d) zs"
      by (rule spec)
    with yz zs show "filter (\<lambda>e. date e = d) ys = filter (\<lambda>e. date e = d) zs'"
      by (simp split: if_splits)
  qed
  from Cons.prems(1) have s1: "sorted_wrt (\<lambda>a b. date b \<le> date a) ys" by simp
  from Cons.prems(2) zs have s2: "sorted_wrt (\<lambda>a b. date b \<le> date a) zs'" by simp
  from Cons.IH [OF s1 s2 tails] zs yz show ?case by simp
qed

lemma keepsTies_sortBy: "keepsTies xs ys \<Longrightarrow> ys = sortBy byDateDesc xs"
  using sortBy_keepsTies [of xs] keepsTies_unique [of ys "sortBy byDateDesc xs"]
  by (simp add: keepsTies_def)

lemma keepsTies_truncate:
  "keepsTies xs ys \<Longrightarrow> keepsTies (map Entry.truncate xs) (map Entry.truncate ys)"
  by (simp add: keepsTies_def sorted_wrt_map filter_map comp_def Entry.truncate_def)

lemma createEntryData_feeds:
  "createEntryData env c t s entry w = (r, w') \<Longrightarrow>
   feedsContent w' = feedsContent w \<and> categoryData w' = categoryData w"
  by (auto simp: createEntryData_def Let_def emit_def split: option.splits)

lemma mapEntries_feeds:
  "mapEntries env c t s es w = (r, w') \<Longrightarrow>
   feedsContent w' = feedsContent w \<and> categoryData w' = categoryData w"
proof (induction es arbitrary: w r w')
  case Nil
  then show ?case by simp
next
  case (Cons entry rest)
  obtain r1 w1 where step: "createEntryData env c t s entry w = (r1, w1)"
    by (cases "createEntryData env c t s entry w") auto
  note f1 = createEntryData_feeds [OF step]
  show ?case
  proof (cases r1)
    case (Inl e)
    with step Cons.prems f1 show ?thesis by simp
  next
    case (Inr d)
    obtain r2 w2 where rest: "mapEntries env c t s rest w1 = (r2, w2)"
      by (cases "mapEntries env c t s rest w1") auto
    from Cons.IH [OF rest] f1 Inr step rest Cons.prems show ?thesis
      by (auto split: sum.splits)
  qed
qed

lemma mapEntries_summaries:
  "mapEntries env c t s es w = (Inr summaries, w') \<Longrightarrow> map Entry.truncate summaries = es"
  by (induction es arbitrary: w summaries)
     (auto simp: createEntryData_def Let_def Entry.truncate_def
           split: sum.splits prod.splits option.splits)

lemma readSite_cong:
  "feedsContent w1 = feedsContent w \<Longrightarrow> readSite env c site w1 = readSite env c site w"
  by (simp add: readSite_def split: option.splits)

lemma createSitesData_feeds:
  "createSitesData env c sites' w = (r, w') \<Longrightarrow>
   feedsContent w' = feedsContent w \<and> categoryData w' = categoryData w"
proof (induction sites' arbitrary: w r w')
  case Nil
  then show ?case by simp
next
  case (Cons site rest)
  show ?case
  proof (cases "readSite env c site w")
    case (Inl e)
    with Cons.prems show ?thesis by simp
  next
    case (Inr json)
    let ?h = "createHash env (substring site 0 (int (length site) - 5))"
    obtain r1 w1 where m: "mapEntries env c (Site.title json) ?h (Site.entries json) w = (r1, w1)"
      by (cases "mapEntries env c (Site.title json) ?h (Site.entries json) w") auto
    note f1 = mapEntries_feeds [OF m]
    show ?thesis
    proof (cases r1)
      case (Inl e)
      with Inr m Cons.prems f1 show ?thesis by (simp add: Let_def)
    next
      case summaries: (Inr summaries)
      show ?thesis
      proof (cases "refused env (WriteFileSync (Join SITES_DATA_PATH (?h @ ''.json'')))")
        case (Some e)
        with summaries Inr m Cons.prems f1 show ?thesis by (simp add: Let_def)
      next
        case None
        let ?data = "\<lparr>SiteData.title = Site.title json, SiteData.link = Site.link json,
                       SiteData.updatedAt = Site.updatedAt json, SiteData.siteHash = ?h,
                       SiteDataWithEntries.entries = sortBy byDateDesc summaries\<rparr>"
        let ?w2 = "w1\<lparr>sitesData := AList.update (?h @ ''.json'') ?data (sitesData w1)\<rparr>"
        obtain r3 w3 where rest: "createSitesData env c rest ?w2 = (r3, w3)"
          by (cases "createSitesData env c rest ?w2") auto
        from Cons.IH [OF rest] f1 None summaries Inr m rest Cons.prems show ?thesis
          by (auto simp: Let_def split: sum.splits)
      qed
    qed
  qed
qed

lemma createSitesData_sorted:
  "createSitesData env c sites' w = (Inr result, w') \<Longrightarrow>
   list_all2 (\<lambda>site data. \<exists>json. readSite env c site w = Inr json
                \<and> keepsTies (Site.entries json)
                     (map Entry.truncate (SiteDataWithEntries.entries data)))
     sites' result"
proof (induction sites' arbitrary: w result)
  case Nil
  then show ?case by simp
next
  case (Cons site rest)
  from Cons.prems obtain json where json: "readSite env c site w = Inr json"
    by (cases "readSite env c site w") auto
  let ?h = "createHash env (substring site 0 (int (length site) - 5))"
  from Cons.prems json obtain summaries w1 where
    m: "mapEntries env c (Site.title json) ?h (Site.entries json) w = (Inr summaries, w1)"
    by (cases "mapEntries env c (Site.title json) ?h (Site.entries json) w")
       (auto simp: Let_def split: sum.splits)
  let ?data = "\<lparr>SiteData.title = Site.title json, SiteData.link = Site.link json,
                 SiteData.updatedAt = Site.updatedAt json, SiteData.siteHash = ?h,
                 SiteDataWithEntries.entries = sortBy byDateDesc summaries\<rparr>"
  let ?w2 = "w1\<lparr>sitesData := AList.update (?h @ ''.json'') ?data (sitesData w1)\<rparr>"
  from Cons.prems json m obtain result' where
    rest: "createSitesData env c rest ?w2 = (Inr result', w')" and result: "result = ?data # result'"
    by (auto simp: Let_def split: sum.splits option.splits prod.splits)
  have feeds: "feedsContent ?w2 = feedsContent w"
    using mapEntries_feeds [OF m] by simp
  have "keepsTies (map Entry.truncate summaries) (map Entry.truncate (sortBy byDateDesc summaries))"
    by (rule keepsTies_truncate) (rule sortBy_keepsTies)
  then have head: "keepsTies (Site.entries json)
                     (map Entry.truncate (SiteDataWithEntries.entries ?data))"
    using mapEntries_summaries [OF m] by simp
  have "list_all2 (\<lambda>site data. \<exists>json. readSite env c site ?w2 = Inr json
                \<and> keepsTies (Site.entries json)
                     (map Entry.truncate (SiteDataWithEntries.entries data)))
          rest result'"
    by (rule Cons.IH [OF rest])
  then have "list_all2 (\<lambda>site data. \<exists>json. readSite env c site w = Inr json
                \<and> keepsTies (Site.entries json)
                     (map Entry.truncate (SiteDataWithEntries.entries data)))
          rest result'"
    using readSite_cong [OF feeds] by simp
  with head json result show ?case by auto
qed

lemma foldl_entries:
  "foldl (\<lambda>entries' site. entries' @ SiteDataWithEntries.entries site) acc sitesData'
     = acc @ concat (map SiteDataWithEntries.entries sitesData')"
  by (induction sitesData' arbitrary: acc) simp_all

lemma createCategories_other:
  "createCategories env cs w = (r, w') \<Longrightarrow>
   feedsContent w' = feedsContent w
   \<and> (\<forall>k. k \<notin> (\<lambda>c. c @ ''.json'') ` set cs \<longrightarrow>
          map_of (categoryData w') k = map_of (categoryData w) k)"
proof (induction cs arbitrary: w r w')
  case Nil
  then show ?case by simp
next
  case (Cons c rest)
  show ?case
  proof (cases "refused env (ReaddirSync (Join FEEDS_CONTENT_PATH c))")
    case (Some e)
    with Cons.prems show ?thesis by simp
  next
    case None
    show ?thesis
    proof (cases "Option.bind (feedsContent w) (\<lambda>categories. map_of categories c)")
      case no_dir: None
      with None Cons.prems show ?thesis by simp
    next
      case (Some files)
      obtain r1 w1 where s: "createSitesData env c (map fst files) w = (r1, w1)"
        by (cases "createSitesData env c (map fst files) w") auto
      note f1 = createSitesData_feeds [OF s]
      show ?thesis
      proof (cases r1)
        case (Inl e)
        with None Some s Cons.prems f1 show ?thesis by simp
      next
        case (Inr sitesData')
        show ?thesis
        proof (cases "refused env (WriteFileSync (Join CATEGORY_DATA_PATH (c @ ''.json'')))")
          case no_write: (Some e)
          with Inr None Some s Cons.prems f1 show ?thesis by (simp add: Let_def)
        next
          case written: None
          let ?w2 = "w1\<lparr>categoryData :=
                          AList.update (c @ ''.json'')
                            (sortBy byDateDesc
                               (foldl (\<lambda>entries' site. entries' @ SiteDataWithEntries.entries site)
                                  [] sitesData'))
                            (categoryData w1)\<rparr>"
          obtain r3 w3 where rest: "createCategories env rest ?w2 = (r3, w3)"
            by (cases "createCategories env rest ?w2") auto
          have "w' = w3"
            using written Inr None Some s rest Cons.prems
            by (auto simp: Let_def split: sum.splits)
          with Cons.IH [OF rest] f1 show ?thesis
            by (auto simp: AList.update_conv')
        qed
      qed
    qed
  qed
qed

lemma createCategories_sorted:
  "createCategories env cs w = (Inr cds, w') \<Longrightarrow> distinct cs \<Longrightarrow>
   \<forall>c\<in>set cs. \<exists>files w0 sitesData' w1 all'.
      Option.bind (feedsContent w) (\<lambda>categories. map_of categories c) = Some files
      \<and> feedsContent w0 = feedsContent w
      \<and> createSitesData env c (map fst files) w0 = (Inr sitesData', w1)
      \<and> map_of (categoryData w') (c @ ''.json'') = Some all'
      \<and> keepsTies (concat (map SiteDataWithEntries.entries sitesData')) all'"
proof (induction cs arbitrary: w cds)
  case Nil
  then show ?case by simp
next
  case (Cons c rest)
  from Cons.prems(1) obtain files where
    files: "Option.bind (feedsContent w) (\<lambda>categories. map_of categories c) = Some files"
    by (cases "Option.bind (feedsContent w) (\<lambda>categories. map_of categories c)")
       (auto split: option.splits)
  from Cons.prems(1) files obtain sitesData' w1 where
    s: "createSitesData env c (map fst files) w = (Inr sitesData', w1)"
    by (cases "createSitesData env c (map fst files) w")
       (auto split: option.splits sum.splits)
  let ?all = "sortBy byDateDesc
                (foldl (\<lambda>entries' site. entries' @ SiteDataWithEntries.entries site) [] sitesData')"
  let ?w2 = "w1\<lparr>categoryData := AList.update (c @ ''.json'') ?all (categoryData w1)\<rparr>"
  from Cons.prems(1) files s obtain cds' where
    rest: "createCategories env rest ?w2 = (Inr cds', w')"
    by (auto simp: Let_def split: option.splits sum.splits prod.splits)
  have feeds: "feedsContent ?w2 = feedsContent w"
    using createSitesData_feeds [OF s] by simp
  have "c @ ''.json'' \<notin> (\<lambda>c. c @ ''.json'') ` set rest"
    using Cons.prems(2) by auto
  with createCategories_other [OF rest]
  have kept: "map_of (categoryData w') (c @ ''.json'') = Some ?all"
    by (simp add: AList.update_conv')
  have ties: "keepsTies (concat (map SiteDataWithEntries.entries sitesData')) ?all"
    using sortBy_keepsTies [of "concat (map SiteDataWithEntries.entries sitesData')"]
    by (simp add: foldl_entries)
  have head: "\<exists>files w0 sitesData' w1 all'.
      Option.bind (feedsContent w) (\<lambda>categories. map_of categories c) = Some files
      \<and> feedsContent w0 = feedsContent w
      \<and> createSitesData env c (map fst files) w0 = (Inr sitesData', w1)
      \<and> map_of (categoryData w') (c @ ''.json'') = Some all'
      \<and> keepsTies (concat (map SiteDataWithEntries.entries sitesData')) all'"
    using files s kept ties by blast
  have "\<forall>c\<in>set rest. \<exists>files w0 sitesData' w1 all'.
      Option.bind (feedsContent ?w2) (\<lambda>categories. map_of categories c) = Some files
      \<and> feedsContent w0 = feedsContent ?w2
      \<and> createSitesData env c (map fst files) w0 = (Inr sitesData', w1)
      \<and> map_of (categoryData w') (c @ ''.json'') = Some all'
      \<and> keepsTies (concat (map SiteDataWithEntries.entries sitesData')) all'"
    using Cons.prems(2) by (intro Cons.IH [OF rest]) simp
  with feeds head show ?case by simp
qed

lemma createCategoryData_sorted_at:
  assumes "feedsContent w = Some categories" and "distinct (map fst categories)"
      and "createCategoryData env w = (Inr (), w')"
  shows "\<forall>(c, files)\<in>set categories. \<exists>w0 sitesData' w1 all'.
      feedsContent w0 = feedsContent w
      \<and> createSitesData env c (map fst files) w0 = (Inr sitesData', w1)
      \<and> map_of (categoryData w') (c @ ''.json'') = Some all'
      \<and> keepsTies (concat (map SiteDataWithEntries.entries sitesData')) all'"
proof -
  from assms(1,3) obtain cds w1 where
    c: "createCategories env (map fst categories) w = (Inr cds, w1)"
    and same: "categoryData w' = categoryData w1"
    by (auto simp: createCategoryData_def Let_def split: option.splits sum.splits prod.splits)
  have "Option.bind (feedsContent w) (\<lambda>categories. map_of categories c) = Some files"
    if "(c, files) \<in> set categories" for c files
    using that assms(1,2) by simp
  with createCategories_sorted [OF c assms(2)] same show ?thesis
    by fastforce
qed

lemma createEntryData_fst:
  "fst (createEntryData env c t s entry w0) = fst (createEntryData env c t s entry w)"
  by (simp add: createEntryData_def Let_def split: option.splits)

lemma mapEntries_fst:
  "fst (mapEntries env c t s es w0) = fst (mapEntries env c t s es w)"
proof (induction es arbitrary: w0 w)
  case Nil
  then show ?case by simp
next
  case (Cons entry rest)
  obtain r0 v0 where a: "createEntryData env c t s entry w0 = (r0, v0)"
    by (cases "createEntryData env c t s entry w0") auto
  obtain r v where b: "createEntryData env c t s entry w = (r, v)"
    by (cases "createEntryData env c t s entry w") auto
  from createEntryData_fst [of env c t s entry w0 w] a b have same: "r0 = r" by simp
  obtain q0 u0 where a': "mapEntries env c t s rest v0 = (q0, u0)"
    by (cases "mapEntries env c t s rest v0") auto
  obtain q u where b': "mapEntries env c t s rest v = (q, u)"
    by (cases "mapEntries env c t s rest v") auto
  from Cons.IH [of v0 v] a' b' have "q0 = q" by simp
  with same a b a' b' show ?case
    by (auto split: sum.splits)
qed

lemma createSitesData_fst:
  "feedsContent w0 = feedsContent w \<Longrightarrow>
   fst (createSitesData env c sites' w0) = fst (createSitesData env c sites' w)"
proof (induction sites' arbitrary: w0 w)
  case Nil
  then show ?case by simp
next
  case (Cons site rest)
  note rs = readSite_cong [OF Cons.prems, of env c site]
  show ?case
  proof (cases "readSite env c site w")
    case (Inl e)
    with rs show ?thesis by simp
  next
    case (Inr json)
    let ?h = "createHash env (substring site 0 (int (length site) - 5))"
    obtain q0 u0 where a: "mapEntries env c (Site.title json) ?h (Site.entries json) w0 = (q0, u0)"
      by (cases "mapEntries env c (Site.title json) ?h (Site.entries json) w0") auto
    obtain q u where b: "mapEntries env c (Site.title json) ?h (Site.entries json) w = (q, u)"
      by (cases "mapEntries env c (Site.title json) ?h (Site.entries json) w") auto
    from mapEntries_fst [of env c "Site.title json" ?h "Site.entries json" w0 w] a b
    have same: "q0 = q" by simp
    have feeds: "feedsContent u0 = feedsContent u"
      using mapEntries_feeds [OF a] mapEntries_feeds [OF b] Cons.prems by simp
    show ?thesis
    proof (cases q)
      case (Inl e)
      with Inr rs a b same show ?thesis by (simp add: Let_def)
    next
      case summaries: (Inr summaries)
      show ?thesis
      proof (cases "refused env (WriteFileSync (Join SITES_DATA_PATH (?h @ ''.json'')))")
        case (Some e)
        with summaries Inr rs a b same show ?thesis by (simp add: Let_def)
      next
        case None
        let ?data = "\<lparr>SiteData.title = Site.title json, SiteData.link = Site.link json,
                       SiteData.updatedAt = Site.updatedAt json, SiteData.siteHash = ?h,
                       SiteDataWithEntries.entries = sortBy byDateDesc summaries\<rparr>"
        let ?va = "u0\<lparr>sitesData := AList.update (?h @ ''.json'') ?data (sitesData u0)\<rparr>"
        let ?vb = "u\<lparr>sitesData := AList.update (?h @ ''.json'') ?data (sitesData u)\<rparr>"
        obtain p0 x0 where a': "createSitesData env c rest ?va = (p0, x0)"
          by (cases "createSitesData env c rest ?va") auto
        obtain p x where b': "createSitesData env c rest ?vb = (p, x)"
          by (cases "createSitesData env c rest ?vb") auto
        have "fst (createSitesData env c rest ?va) = fst (createSitesData env c rest ?vb)"
          by (rule Cons.IH) (simp add: feeds)
        with a' b' have p: "p0 = p" by simp
        have l: "createSitesData env c (site # rest) w0
                   = (case p of Inl e \<Rightarrow> (Inl e, x0) | Inr result \<Rightarrow> (Inr (?data # result), x0))"
          using a a' p None summaries Inr rs same by (simp add: Let_def split: sum.splits)
        have r: "createSitesData env c (site # rest) w
                   = (case p of Inl e \<Rightarrow> (Inl e, x) | Inr result \<Rightarrow> (Inr (?data # result), x))"
          using b b' None summaries Inr by (simp add: Let_def split: sum.splits)
        show ?thesis
          unfolding l r by (cases p) simp_all
      qed
    qed
  qed
qed

lemma createCategoryData_sorted:
  assumes "feedsContent w = Some categories" and "distinct (map fst categories)"
      and "createCategoryData env w = (Inr (), w')"
  shows "\<forall>(c, files)\<in>set categories. \<exists>sitesData' all'.
      fst (createSitesData env c (map fst files) w) = Inr sitesData'
      \<and> map_of (categoryData w') (c @ ''.json'') = Some all'
      \<and> keepsTies (concat (map SiteDataWithEntries.entries sitesData')) all'"
proof (clarify)
  fix c files
  assume "(c, files) \<in> set categories"
  with createCategoryData_sorted_at [OF assms] obtain w0 sitesData' w1 all' where
    *: "feedsContent w0 = feedsContent w"
      "createSitesData env c (map fst files) w0 = (Inr sitesData', w1)"
      "map_of (categoryData w') (c @ ''.json'') = Some all'"
      "keepsTies (concat (map SiteDataWithEntries.entries sitesData')) all'"
    by fast
  from createSitesData_fst [OF *(1), of env c "map fst files"] *(2)
  have "fst (createSitesData env c (map fst files) w) = Inr sitesData'" by simp
  with * show "\<exists>sitesData' all'.
      fst (createSitesData env c (map fst files) w) = Inr sitesData'
      \<and> map_of (categoryData w') (c @ ''.json'') = Some all'
      \<and> keepsTies (concat (map SiteDataWithEntries.entries sitesData')) all'"
    by blast
qed

lemma createAllEntriesData_sorted:
  assumes "createAllEntriesData env w = (Inr (), w')"
  shows "\<exists>found all'.
      map Some found = map (map_of (entriesData w)) (map fst (entriesData w))
      \<and> map_of (dataFiles w') ''all.json'' = Some (EntriesDoc all')
      \<and> keepsTies found all'"
proof -
  from assms obtain found where
    found: "readEntries env (map fst (entriesData w)) w = Inr found"
    and w': "w' = w\<lparr>dataFiles :=
                      AList.update ''all.json'' (EntriesDoc (sortBy byDateDesc found))
                        (dataFiles w)\<rparr>"
    by (auto simp: createAllEntriesData_def split: option.splits sum.splits)
  from readEntries_result [OF found] w' sortBy_keepsTies [of found] show ?thesis
    by (auto simp: AList.update_conv')
qed

text \<open>
  Claim C7. The entries that \<open>createSitesData\<close> returns for a site keep the ties of the
  entries of its feed file; the file that \<open>createCategoryData\<close> writes for a category
  keeps the ties of the entries that \<open>createSitesData\<close> returns for its sites, one site
  after the other; and the global index that \<open>createAllEntriesData\<close> writes keeps the
  ties of the records of the entries store in the order of its listing. Each is in
  descending order of date, and entries of one date are in the order they had.
\<close>

theorem date_sorts_keep_ties:
  "(createSitesData env c sites' ws = (Inr result, ws') \<longrightarrow>
      list_all2 (\<lambda>site data. \<exists>json. readSite env c site ws = Inr json
                   \<and> keepsTies (Site.entries json)
                        (map Entry.truncate (SiteDataWithEntries.entries data)))
        sites' result)
   \<and> (feedsContent wc = Some categories \<and> distinct (map fst categories)
       \<and> createCategoryData env wc = (Inr (), wc') \<longrightarrow>
      (\<forall>(c, files)\<in>set categories. \<exists>sitesData' all'.
          fst (createSitesData env c (map fst files) wc) = Inr sitesData'
          \<and> map_of (categoryData wc') (c @ ''.json'') = Some all'
          \<and> keepsTies (concat (map SiteDataWithEntries.entries sitesData')) all'))
   \<and> (createAllEntriesData env wi = (Inr (), wi') \<longrightarrow>
      (\<exists>found all'.
          map Some found = map (map_of (entriesData wi)) (map fst (entriesData wi))
          \<and> map_of (dataFiles wi') ''all.json'' = Some (EntriesDoc all')
          \<and> keepsTies found all'))"
  using createSitesData_sorted [of env c sites' ws result ws']
    createCategoryData_sorted [of wc categories env wc']
    createAllEntriesData_sorted [of env wi wi']
  by blast

theorem date_sorts_keep_ties_witness:
  "map (map Entry.title \<circ> SiteDataWithEntries.entries)
      (projr (fst (createSitesData quiet ''tech'' [''a.json'', ''b.json''] tiesWorld)))
     = [[''newer'', ''first'', ''last''], [''other'']]
   \<and> fst (createCategoryData quiet tiesWorld) = Inr ()
   \<and> map_option (map Entry.title)
        (map_of (categoryData (snd (createCategoryData quiet tiesWorld))) ''tech.json'')
     = Some [''newer'', ''first'', ''last'', ''other'']
   \<and> fst (createAllEntriesData quiet (snd (createCategoryData quiet tiesWorld))) = Inr ()
   \<and> map (Entry.title \<circ> snd) (entriesData (snd (createCategoryData quiet tiesWorld)))
     = [''first'', ''newer'', ''last'', ''other'']
   \<and> (case map_of (dataFiles (snd (createAllEntriesData quiet
                                      (snd (createCategoryData quiet tiesWorld))))) ''all.json'' of
         Some (EntriesDoc all') \<Rightarrow> map Entry.title all' | _ \<Rightarrow> [])
     = [''newer'', ''first'', ''last'', ''other'']"
proof -
  let ?sites = "createSitesData quiet ''tech'' [''a.json'', ''b.json''] tiesWorld"
  let ?cats = "createCategoryData quiet tiesWorld"
  let ?all = "createAllEntriesData quiet (snd ?cats)"
  have a: "?sites = (Inr (projr (fst ?sites)), snd ?sites)"
    by (simp add: program_defs example_defs)
  have b: "feedsContent tiesWorld = Some (the (feedsContent tiesWorld))"
    "distinct (map fst (the (feedsContent tiesWorld)))"
    by (simp_all add: tiesWorld_def emptyWorld_def)
  have c: "?cats = (Inr (), snd ?cats)"
    by (simp add: program_defs example_defs)
  have d: "?all = (Inr (), snd ?all)"
    by (simp add: program_defs example_defs)
  have e: "map (map Entry.title \<circ> SiteDataWithEntries.entries) (projr (fst ?sites))
             = [[''newer'', ''first'', ''last''], [''other'']]"
    "map_option (map Entry.title) (map_of (categoryData (snd ?cats)) ''tech.json'')
       = Some [''newer'', ''first'', ''last'', ''other'']"
    "map (Entry.title \<circ> snd) (entriesData (snd ?cats))
       = [''first'', ''newer'', ''last'', ''other'']"
    "(case map_of (dataFiles (snd ?all)) ''all.json'' of
         Some (EntriesDoc all') \<Rightarrow> map Entry.title all' | _ \<Rightarrow> [])
       = [''newer'', ''first'', ''last'', ''other'']"
    by (simp_all add: program_defs example_defs)
  have f: "fst ?cats = Inr ()" "fst ?all = Inr ()"
    by (simp_all add: program_defs example_defs)
  note ties = date_sorts_keep_ties [where env = quiet and c = "''tech''"
      and sites' = "[''a.json'', ''b.json'']" and ws = tiesWorld
      and result = "projr (fst ?sites)" and ws' = "snd ?sites" and wc = tiesWorld
      and categories = "the (feedsContent tiesWorld)" and wc' = "snd ?cats"
      and wi = "snd ?cats" and wi' = "snd ?all"]
  from ties a have "list_all2 (\<lambda>site data. \<exists>json. readSite quiet ''tech'' site tiesWorld = Inr json
                   \<and> keepsTies (Site.entries json)
                        (map Entry.truncate (SiteDataWithEntries.entries data)))
        [''a.json'', ''b.json''] (projr (fst ?sites))"
    by blast
  moreover from ties d have "\<exists>found all'.
          map Some found = map (map_of (entriesData (snd ?cats))) (map fst (entriesData (snd ?cats)))
          \<and> map_of (dataFiles (snd ?all)) ''all.json'' = Some (EntriesDoc all')
          \<and> keepsTies found all'"
    by blast
  moreover from ties b c have "\<forall>(c, files)\<in>set (the (feedsContent tiesWorld)). \<exists>sitesData' all'.
          fst (createSitesData quiet c (map fst files) tiesWorld) = Inr sitesData'
          \<and> map_of (categoryData (snd ?cats)) (c @ ''.json'') = Some all'
          \<and> keepsTies (concat (map SiteDataWithEntries.entries sitesData')) all'"
    by blast
  ultimately show ?thesis
    using e f by blast
qed

end
